theory Spec2Isabelle
  imports Complex_Main
begin

section \<open>Errors and arrays\<close>

text \<open>
  The exceptions the modelled code can raise. \<open>MaskException\<close> is the one exception class
  of \<^verbatim>\<open>auto_lens/image.py\<close> and carries its message; \<open>IndexError\<close> is what numpy raises
  for an index outside an axis; \<open>AttributeError\<close> is what Python raises for an attribute
  that was never set, or for a method looked up on \<^verbatim>\<open>None\<close>; \<open>ValueError\<close> is what numpy
  raises for operands that cannot be broadcast together; \<open>ShapeMismatch\<close> is the
  spec's name for two grid bundles that disagree on which grids are present.
\<close>

datatype error = MaskException string | IndexError | AttributeError | ValueError | ShapeMismatch

text \<open>
  A two-dimensional numpy array: its shape and its cells. Cells outside the shape are
  never read: every read and write goes through \<open>np_index\<close>.
\<close>

record 'a ndarray =
  rows :: nat
  cols :: nat
  cell :: "nat \<Rightarrow> nat \<Rightarrow> 'a"

text \<open>
  numpy's index rule on an axis of length \<open>n\<close>: \<open>0 \<le> i < n\<close> is taken as it is, a negative
  \<open>i \<ge> -n\<close> counts from the end, anything else raises IndexError.
\<close>

definition np_index :: "nat \<Rightarrow> int \<Rightarrow> error + nat" where
  "np_index n i =
     (if 0 \<le> i \<and> i < int n then Inr (nat i)
      else if - int n \<le> i \<and> i < 0 then Inr (nat (int n + i))
      else Inl IndexError)"

definition array_get :: "'a ndarray \<Rightarrow> int \<Rightarrow> int \<Rightarrow> error + 'a" where
  "array_get m i j =
     (case np_index (rows m) i of
        Inl e \<Rightarrow> Inl e
      | Inr a \<Rightarrow> (case np_index (cols m) j of
                   Inl e \<Rightarrow> Inl e
                 | Inr b \<Rightarrow> Inr (cell m a b)))"

definition array_set :: "'a ndarray \<Rightarrow> int \<Rightarrow> int \<Rightarrow> 'a \<Rightarrow> error + 'a ndarray" where
  "array_set m i j v =
     (case np_index (rows m) i of
        Inl e \<Rightarrow> Inl e
      | Inr a \<Rightarrow> (case np_index (cols m) j of
                   Inl e \<Rightarrow> Inl e
                 | Inr b \<Rightarrow> Inr (m\<lparr>cell := \<lambda>r c. if r = a \<and> c = b then v else cell m r c\<rparr>)))"

text \<open>\<^verbatim>\<open>np.zeros(shape)\<close>, read as a boolean field: 0.0 is False.\<close>

definition zeros :: "nat \<Rightarrow> nat \<Rightarrow> bool ndarray" where
  "zeros r c = \<lparr>rows = r, cols = c, cell = \<lambda>_ _. False\<rparr>"

text \<open>An array given by its rows, for writing masks down.\<close>

definition of_rows :: "nat \<Rightarrow> nat \<Rightarrow> 'a list list \<Rightarrow> 'a ndarray" where
  "of_rows r c xss = \<lparr>rows = r, cols = c, cell = \<lambda>i j. xss ! i ! j\<rparr>"

text \<open>The positions of an array in row-major order, and those holding True.\<close>

definition positions :: "nat \<Rightarrow> nat \<Rightarrow> (nat \<times> nat) list" where
  "positions r c = List.product [0..<r] [0..<c]"

definition true_pixels :: "bool ndarray \<Rightarrow> (nat \<times> nat) list" where
  "true_pixels m = filter (\<lambda>(i, j). cell m i j) (positions (rows m) (cols m))"

text \<open>\<^verbatim>\<open>range(a, b)\<close> over Python's integers.\<close>

definition py_range :: "int \<Rightarrow> int \<Rightarrow> int list" where
  "py_range a b = [a..b - 1]"

text \<open>A \<^verbatim>\<open>for\<close> loop whose body may raise: the first error ends the loop.\<close>

fun for_each :: "('a \<Rightarrow> 's \<Rightarrow> error + 's) \<Rightarrow> 'a list \<Rightarrow> 's \<Rightarrow> error + 's" where
  "for_each f [] s = Inr s"
| "for_each f (x # xs) s = (case f x s of Inl e \<Rightarrow> Inl e | Inr s' \<Rightarrow> for_each f xs s')"

section \<open>Mask.blurring_region\<close>

definition odd_msg :: string where
  "odd_msg = ''blurring_region_size of exterior region must be odd''"

definition pad_msg :: string where
  "pad_msg = ''blurring_region extends beynod the size of the mask - pad the imagebefore masking''"

text \<open>
  The body of the two inner loops of \<^verbatim>\<open>Mask.blurring_region\<close> for the pixel \<open>(i, j)\<close> and
  the offset \<open>(i1, j1)\<close>. As in the source, both bounds are taken from
  \<^verbatim>\<open>image_dimensions_pixels[0]\<close>, and the mask and the region are indexed
  \<^verbatim>\<open>[j + j1, i + i1]\<close>.
\<close>

definition mark_neighbour ::
  "bool ndarray \<Rightarrow> nat \<Rightarrow> nat \<Rightarrow> int \<times> int \<Rightarrow> bool ndarray \<Rightarrow> error + bool ndarray" where
  "mark_neighbour msk i j off blurring =
     (case off of (i1, j1) \<Rightarrow>
        if 0 \<le> int i + i1 \<and> int i + i1 \<le> int (rows msk) - 1
           \<and> 0 \<le> int j + j1 \<and> int j + j1 \<le> int (rows msk) - 1
        then (case array_get msk (int j + j1) (int i + i1) of
                Inl e \<Rightarrow> Inl e
              | Inr v \<Rightarrow> if \<not> v then array_set blurring (int j + j1) (int i + i1) True
                         else Inr blurring)
        else Inl (MaskException pad_msg))"

definition kernel_offsets :: "int \<times> int \<Rightarrow> (int \<times> int) list" where
  "kernel_offsets ksize =
     List.product (py_range ((- fst ksize + 1) div 2) ((fst ksize + 1) div 2))
                  (py_range ((- snd ksize + 1) div 2) ((snd ksize + 1) div 2))"

definition blurring_pixel ::
  "bool ndarray \<Rightarrow> int \<times> int \<Rightarrow> nat \<times> nat \<Rightarrow> bool ndarray \<Rightarrow> error + bool ndarray" where
  "blurring_pixel msk ksize p blurring =
     (case p of (i, j) \<Rightarrow>
        if cell msk i j
        then for_each (mark_neighbour msk i j) (kernel_offsets ksize) blurring
        else Inr blurring)"

definition blurring_region :: "bool ndarray \<Rightarrow> int \<times> int \<Rightarrow> error + bool ndarray" where
  "blurring_region msk blurring_region_size =
     (if fst blurring_region_size mod 2 = 0 \<or> snd blurring_region_size mod 2 = 0
      then Inl (MaskException odd_msg)
      else for_each (blurring_pixel msk blurring_region_size)
             (positions (rows msk) (cols msk)) (zeros (rows msk) (cols msk)))"

section \<open>Mask.border_pixels\<close>

text \<open>
  The eight neighbours in the order the source's \<^verbatim>\<open>or\<close> chain reads them.
\<close>

definition neighbours :: "nat \<Rightarrow> nat \<Rightarrow> (int \<times> int) list" where
  "neighbours i j =
     [(int i + 1, int j), (int i - 1, int j), (int i, int j + 1), (int i, int j - 1),
      (int i + 1, int j + 1), (int i + 1, int j - 1), (int i - 1, int j + 1),
      (int i - 1, int j - 1)]"

text \<open>
  The chain \<^verbatim>\<open>mask[a] == 0 or mask[b] == 0 or ...\<close>: operands are read from the left and
  the first excluded one ends the evaluation. The second component lists every index pair
  the chain has read, as written in the source (before numpy's wrap-around).
\<close>

fun any_excluded ::
  "bool ndarray \<Rightarrow> (int \<times> int) list \<Rightarrow> (error + bool) \<times> (int \<times> int) list" where
  "any_excluded msk [] = (Inr False, [])"
| "any_excluded msk (p # ps) =
     (case array_get msk (fst p) (snd p) of
        Inl e \<Rightarrow> (Inl e, [p])
      | Inr v \<Rightarrow> if \<not> v then (Inr True, [p])
                 else (case any_excluded msk ps of (r, rd) \<Rightarrow> (r, p # rd)))"

text \<open>
  The state of the scan: the border list, the running pixel index, and the reads made so
  far, each recorded with the pixel whose chain made it.
\<close>

record border_state =
  border :: "nat list"
  image_pixel_index :: nat
  reads :: "((nat \<times> nat) \<times> (int \<times> int)) list"

fun border_scan ::
  "bool ndarray \<Rightarrow> (nat \<times> nat) list \<Rightarrow> border_state
     \<Rightarrow> (error + nat list) \<times> ((nat \<times> nat) \<times> (int \<times> int)) list" where
  "border_scan msk [] s = (Inr (border s), reads s)"
| "border_scan msk (p # ps) s =
     (if cell msk (fst p) (snd p)
      then (case any_excluded msk (neighbours (fst p) (snd p)) of
              (Inl e, rd) \<Rightarrow> (Inl e, reads s @ map (Pair p) rd)
            | (Inr b, rd) \<Rightarrow>
                border_scan msk ps
                  \<lparr>border = (if b then border s @ [image_pixel_index s] else border s),
                   image_pixel_index = image_pixel_index s + 1,
                   reads = reads s @ map (Pair p) rd\<rparr>)
      else border_scan msk ps s)"

definition border_pixels ::
  "bool ndarray \<Rightarrow> (error + nat list) \<times> ((nat \<times> nat) \<times> (int \<times> int)) list" where
  "border_pixels msk =
     border_scan msk (positions (rows msk) (cols msk))
       \<lparr>border = [], image_pixel_index = 0, reads = []\<rparr>"

text \<open>
  The chain at pixel \<open>(i, j)\<close> reaches its operand number \<open>k\<close> (from 0) when every
  operand before it was read without error and found an included pixel; it raises when an
  operand it reaches lies outside the array. \<open>scanned_before\<close> lists the positions the
  row-major scan visits before a pixel.
\<close>

definition chain_reaches :: "bool ndarray \<Rightarrow> nat \<Rightarrow> nat \<Rightarrow> nat \<Rightarrow> bool" where
  "chain_reaches m i j k =
     list_all (\<lambda>p. array_get m (fst p) (snd p) = Inr True) (take k (neighbours i j))"

definition chain_raises :: "bool ndarray \<Rightarrow> nat \<times> nat \<Rightarrow> bool" where
  "chain_raises m p =
     list_ex (\<lambda>k. chain_reaches m (fst p) (snd p) k
                \<and> array_get m (fst (neighbours (fst p) (snd p) ! k))
                     (snd (neighbours (fst p) (snd p) ! k)) = Inl IndexError)
       [0..<8]"

definition scanned_before :: "bool ndarray \<Rightarrow> nat \<times> nat \<Rightarrow> (nat \<times> nat) list" where
  "scanned_before m p = takeWhile (\<lambda>q. q \<noteq> p) (positions (rows m) (cols m))"

definition in_bounds :: "'a ndarray \<Rightarrow> int \<times> int \<Rightarrow> bool" where
  "in_bounds m p = (0 \<le> fst p \<and> fst p < int (rows m) \<and> 0 \<le> snd p \<and> snd p < int (cols m))"

definition on_edge :: "'a ndarray \<Rightarrow> nat \<times> nat \<Rightarrow> bool" where
  "on_edge m p = (fst p = 0 \<or> snd p = 0 \<or> fst p + 1 = rows m \<or> snd p + 1 = cols m)"

definition same_shape :: "'a ndarray \<Rightarrow> 'b ndarray \<Rightarrow> bool" where
  "same_shape a b = (rows b = rows a \<and> cols b = cols a)"

text \<open>The name of the Python class of an exception.\<close>

definition class_name :: "error \<Rightarrow> string" where
  "class_name e =
     (case e of
        MaskException _ \<Rightarrow> ''MaskException''
      | IndexError \<Rightarrow> ''IndexError''
      | AttributeError \<Rightarrow> ''AttributeError''
      | ValueError \<Rightarrow> ''ValueError''
      | ShapeMismatch \<Rightarrow> ''ShapeMismatch'')"

text \<open>The exception a call ended with, if it raised one.\<close>

definition raised :: "error + 'a \<Rightarrow> error option" where
  "raised r = (case r of Inl e \<Rightarrow> Some e | Inr _ \<Rightarrow> None)"

text \<open>
  The neighbourhood box of the spec: an offset lies in the box of a kernel when each
  component is at most \<open>(psf_size - 1) / 2\<close> in absolute value.
\<close>

definition in_box :: "int \<times> int \<Rightarrow> int \<times> int \<Rightarrow> bool" where
  "in_box ksize off = (\<bar>fst off\<bar> \<le> (fst ksize - 1) div 2 \<and> \<bar>snd off\<bar> \<le> (snd ksize - 1) div 2)"

text \<open>
  The blurring region in the spec's words, to compare with \<open>blurring_region\<close>: the
  excluded pixels that lie in the box of some included pixel, in row-major order.
\<close>

definition blurring_region_spec :: "bool ndarray \<Rightarrow> int \<times> int \<Rightarrow> (nat \<times> nat) list" where
  "blurring_region_spec msk ksize =
     filter (\<lambda>q. \<not> cell msk (fst q) (snd q)
                \<and> list_ex (\<lambda>p. cell msk (fst p) (snd p)
                     \<and> in_box ksize (int (fst q) - int (fst p), int (snd q) - int (snd p)))
                   (positions (rows msk) (cols msk)))
       (positions (rows msk) (cols msk))"

subsection \<open>Masks used as examples\<close>

definition mask_centre :: "bool ndarray" where
  "mask_centre = of_rows 3 3
     [[False, False, False], [False, True, False], [False, False, False]]"

definition mask_last_column :: "bool ndarray" where
  "mask_last_column = of_rows 3 3
     [[False, False, False], [False, False, True], [False, False, False]]"

definition mask_last_row :: "bool ndarray" where
  "mask_last_row = of_rows 3 3
     [[False, False, False], [False, False, False], [False, True, False]]"

definition mask_first_row :: "bool ndarray" where
  "mask_first_row = of_rows 3 3
     [[False, True, False], [False, True, False], [False, False, False]]"

definition mask_tall :: "bool ndarray" where
  "mask_tall = of_rows 5 3
     [[False, False, False], [False, False, True], [False, False, False],
      [False, False, False], [False, False, False]]"

definition mask_wide :: "bool ndarray" where
  "mask_wide = of_rows 3 5
     [[False, False, False, False, False], [False, False, False, False, True],
      [False, False, False, False, False]]"

definition mask_last_column_run :: "bool ndarray" where
  "mask_last_column_run = of_rows 4 3
     [[False, False, True], [False, False, True], [False, False, True], [False, False, False]]"

definition mask_off_diagonal :: "bool ndarray" where
  "mask_off_diagonal = of_rows 4 4
     [[False, False, False, False], [False, False, True, False],
      [False, False, False, False], [False, False, False, False]]"

section \<open>Coordinates, galaxies and grids\<close>

text \<open>
  A coordinate is a pair of arc-second values. Python's floats are modelled as real
  numbers: rounding is outside this model.
\<close>

type_synonym coord = "real \<times> real"

definition vadd :: "coord \<Rightarrow> coord \<Rightarrow> coord" where
  "vadd a b = (fst a + fst b, snd a + snd b)"

definition vsub :: "coord \<Rightarrow> coord \<Rightarrow> coord" where
  "vsub a b = (fst a - fst b, snd a - snd b)"

definition vscale :: "real \<Rightarrow> coord \<Rightarrow> coord" where
  "vscale k a = (k * fst a, k * snd a)"

fun vsum :: "coord list \<Rightarrow> coord" where
  "vsum [] = (0, 0)"
| "vsum (v # vs) = vadd v (vsum vs)"

text \<open>
  A galaxy, external to the core: its mass profiles give a deflection angle at a
  coordinate, its light profiles an intensity.
\<close>

record galaxy =
  redshift :: "real option"
  mass_profiles :: "(coord \<Rightarrow> coord) list"
  light_profiles :: "(coord \<Rightarrow> real) list"

text \<open>
  Modelled from the spec: \<^verbatim>\<open>grids.py\<close> (the grid classes GridImage, GridImageSub,
  GridBlurring and the bundle of the three) is missing from the sources; only its tests
  and its caller \<^verbatim>\<open>ray_tracing.py\<close> are there. \<open>deflection_grid_from_galaxies\<close> sums, at
  every coordinate, the deflection angle of every mass profile of every galaxy;
  \<open>trace_to_next_grid\<close> is the elementwise \<open>coordinate - deflection\<close>.
\<close>

definition deflection_at :: "galaxy list \<Rightarrow> coord \<Rightarrow> coord" where
  "deflection_at gs c = vsum (map (\<lambda>g. vsum (map (\<lambda>p. p c) (mass_profiles g))) gs)"

definition deflection_grid_from_galaxies :: "coord list \<Rightarrow> galaxy list \<Rightarrow> coord list" where
  "deflection_grid_from_galaxies grid gs = map (deflection_at gs) grid"

definition trace_to_next_grid :: "coord list \<Rightarrow> coord list \<Rightarrow> coord list" where
  "trace_to_next_grid grid deflection_grid = map2 vsub grid deflection_grid"

text \<open>
  Modelled from the spec: the sub-grid (shape \<open>(n_pixels, sub_size\<^sup>2, 2)\<close>) with its
  \<open>sub_grid_size\<close>, which both operations preserve.
\<close>

record grid_image_sub =
  grid :: "coord list list"
  sub_grid_size :: nat

definition sub_deflection_grid_from_galaxies :: "grid_image_sub \<Rightarrow> galaxy list \<Rightarrow> grid_image_sub" where
  "sub_deflection_grid_from_galaxies s gs =
     s\<lparr>grid := map (\<lambda>pixel. deflection_grid_from_galaxies pixel gs) (grid s)\<rparr>"

definition sub_trace_to_next_grid :: "grid_image_sub \<Rightarrow> grid_image_sub \<Rightarrow> grid_image_sub" where
  "sub_trace_to_next_grid s d = s\<lparr>grid := map2 trace_to_next_grid (grid s) (grid d)\<rparr>"

text \<open>
  Modelled from the spec: the bundle of an always-present image grid with optional sub and
  blurring grids. \<^verbatim>\<open>ray_tracing.py\<close> calls its two operations
  \<^verbatim>\<open>deflection_grids_for_galaxies\<close> and \<^verbatim>\<open>traced_grids_for_deflections\<close>; they apply the
  grid operation to each present grid, absence propagates, and two bundles that disagree
  on which grids are present fail.
\<close>

record grid_coords_collection =
  image_grid :: "coord list"
  sub :: "grid_image_sub option"
  blurring :: "coord list option"

definition deflection_grids_for_galaxies ::
  "grid_coords_collection \<Rightarrow> galaxy list \<Rightarrow> grid_coords_collection" where
  "deflection_grids_for_galaxies gc gs =
     \<lparr>image_grid = deflection_grid_from_galaxies (image_grid gc) gs,
      sub = map_option (\<lambda>s. sub_deflection_grid_from_galaxies s gs) (sub gc),
      blurring = map_option (\<lambda>b. deflection_grid_from_galaxies b gs) (blurring gc)\<rparr>"

fun traced_optional ::
  "('a \<Rightarrow> 'a \<Rightarrow> 'a) \<Rightarrow> 'a option \<Rightarrow> 'a option \<Rightarrow> error + 'a option" where
  "traced_optional f None None = Inr None"
| "traced_optional f (Some g) (Some d) = Inr (Some (f g d))"
| "traced_optional f _ _ = Inl ShapeMismatch"

definition traced_grids_for_deflections ::
  "grid_coords_collection \<Rightarrow> grid_coords_collection \<Rightarrow> error + grid_coords_collection" where
  "traced_grids_for_deflections gc ds =
     (case traced_optional sub_trace_to_next_grid (sub gc) (sub ds) of
        Inl e \<Rightarrow> Inl e
      | Inr s \<Rightarrow>
          (case traced_optional trace_to_next_grid (blurring gc) (blurring ds) of
             Inl e \<Rightarrow> Inl e
           | Inr b \<Rightarrow>
               Inr \<lparr>image_grid = trace_to_next_grid (image_grid gc) (image_grid ds),
                    sub = s, blurring = b\<rparr>))"

text \<open>
  Modelled from the spec: \<^verbatim>\<open>intensities_via_grid\<close> of the sub-grid and of the blurring
  grid, missing with \<^verbatim>\<open>grids.py\<close>. On the sub-grid the galaxies' light-profile intensities
  are summed at every sub-coordinate and the \<open>sub_grid_size\<^sup>2\<close> samples of a pixel are
  averaged; on the blurring grid they are summed at each coordinate. The \<open>mapping\<close>
  argument is an opaque hook that light profiles do not use.
\<close>

definition intensity_at :: "galaxy list \<Rightarrow> coord \<Rightarrow> real" where
  "intensity_at gs c = sum_list (map (\<lambda>g. sum_list (map (\<lambda>l. l c) (light_profiles g))) gs)"

definition sub_intensities_via_grid :: "grid_image_sub \<Rightarrow> galaxy list \<Rightarrow> 'm \<Rightarrow> real list" where
  "sub_intensities_via_grid s gs mapping =
     map (\<lambda>pixel. sum_list (map (intensity_at gs) pixel) / (real (sub_grid_size s))\<^sup>2) (grid s)"

definition blurring_intensities_via_grid :: "coord list \<Rightarrow> galaxy list \<Rightarrow> real list" where
  "blurring_intensities_via_grid b gs = map (intensity_at gs) b"

text \<open>
  numpy's \<^verbatim>\<open>+\<close> on two one-dimensional arrays: elementwise on equal lengths, an array
  of length one is broadcast, any other pair of lengths raises ValueError.
\<close>

definition np_add :: "real list \<Rightarrow> real list \<Rightarrow> error + real list" where
  "np_add a b =
     (if length a = length b then Inr (map2 (+) a b)
      else if length a = 1 then Inr (map (\<lambda>y. hd a + y) b)
      else if length b = 1 then Inr (map (\<lambda>x. x + hd b) a)
      else Inl ValueError)"

section \<open>Plane and Tracer\<close>

text \<open>
  \<^verbatim>\<open>Plane.__init__\<close> sets \<^verbatim>\<open>self.deflections\<close> only when \<^verbatim>\<open>compute_deflections\<close> holds:
  \<open>None\<close> stands for the attribute that was never set.
\<close>

record plane =
  galaxies :: "galaxy list"
  grids :: grid_coords_collection
  deflections :: "grid_coords_collection option"

definition Plane :: "galaxy list \<Rightarrow> grid_coords_collection \<Rightarrow> bool \<Rightarrow> plane" where
  "Plane gs gc compute_deflections =
     \<lparr>galaxies = gs, grids = gc,
      deflections = (if compute_deflections then Some (deflection_grids_for_galaxies gc gs)
                     else None)\<rparr>"

definition trace_to_next_plane :: "plane \<Rightarrow> error + grid_coords_collection" where
  "trace_to_next_plane p =
     (case deflections p of
        None \<Rightarrow> Inl AttributeError
      | Some ds \<Rightarrow> traced_grids_for_deflections (grids p) ds)"

definition plane_generate_image_of_galaxy_light_profiles :: "plane \<Rightarrow> 'm \<Rightarrow> error + real list" where
  "plane_generate_image_of_galaxy_light_profiles p mapping =
     (case sub (grids p) of
        None \<Rightarrow> Inl AttributeError
      | Some s \<Rightarrow> Inr (sub_intensities_via_grid s (galaxies p) mapping))"

definition plane_generate_blurring_image_of_galaxy_light_profiles :: "plane \<Rightarrow> error + real list" where
  "plane_generate_blurring_image_of_galaxy_light_profiles p =
     (case blurring (grids p) of
        None \<Rightarrow> Inl AttributeError
      | Some b \<Rightarrow> Inr (blurring_intensities_via_grid b (galaxies p)))"

record tracer =
  image_plane :: plane
  source_plane :: plane

definition Tracer ::
  "galaxy list \<Rightarrow> galaxy list \<Rightarrow> grid_coords_collection \<Rightarrow> error + tracer" where
  "Tracer lens_galaxies source_galaxies image_plane_grids =
     (let ip = Plane lens_galaxies image_plane_grids True in
      case trace_to_next_plane ip of
        Inl e \<Rightarrow> Inl e
      | Inr source_plane_grids \<Rightarrow>
          Inr \<lparr>image_plane = ip,
               source_plane = Plane source_galaxies source_plane_grids False\<rparr>)"

definition generate_image_of_galaxy_light_profiles :: "tracer \<Rightarrow> 'm \<Rightarrow> error + real list" where
  "generate_image_of_galaxy_light_profiles t mapping =
     (case plane_generate_image_of_galaxy_light_profiles (image_plane t) mapping of
        Inl e \<Rightarrow> Inl e
      | Inr a \<Rightarrow>
          (case plane_generate_image_of_galaxy_light_profiles (source_plane t) mapping of
             Inl e \<Rightarrow> Inl e
           | Inr b \<Rightarrow> np_add a b))"

text \<open>
  The method has no \<^verbatim>\<open>else\<close> branch: without a blurring grid it returns \<^verbatim>\<open>None\<close>.
\<close>

definition generate_blurring_image_of_galaxy_light_profiles :: "tracer \<Rightarrow> error + real list option" where
  "generate_blurring_image_of_galaxy_light_profiles t =
     (case blurring (grids (image_plane t)) of
        None \<Rightarrow> Inr None
      | Some _ \<Rightarrow>
          (case plane_generate_blurring_image_of_galaxy_light_profiles (image_plane t) of
             Inl e \<Rightarrow> Inl e
           | Inr a \<Rightarrow>
               (case plane_generate_blurring_image_of_galaxy_light_profiles (source_plane t) of
                  Inl e \<Rightarrow> Inl e
                | Inr b \<Rightarrow> map_sum id Some (np_add a b))))"

text \<open>
  The source plane's grids as the constructor obtains them: every present grid of the
  image plane traced through that grid's own deflections.
\<close>

definition source_plane_grids_of :: "grid_coords_collection \<Rightarrow> galaxy list \<Rightarrow> grid_coords_collection" where
  "source_plane_grids_of gc lens =
     \<lparr>image_grid = trace_to_next_grid (image_grid gc) (deflection_grid_from_galaxies (image_grid gc) lens),
      sub = map_option (\<lambda>s. sub_trace_to_next_grid s (sub_deflection_grid_from_galaxies s lens)) (sub gc),
      blurring = map_option (\<lambda>b. trace_to_next_grid b (deflection_grid_from_galaxies b lens)) (blurring gc)\<rparr>"

text \<open>
  The calls \<^verbatim>\<open>Tracer(l, s, g).generate_image_of_galaxy_light_profiles(mapping)\<close> and
  \<^verbatim>\<open>Tracer(l, s, g).generate_blurring_image_of_galaxy_light_profiles()\<close>.
\<close>

definition tracer_blurring_image ::
  "galaxy list \<Rightarrow> galaxy list \<Rightarrow> grid_coords_collection \<Rightarrow> error + real list option" where
  "tracer_blurring_image lens source gc =
     (case Tracer lens source gc of
        Inl e \<Rightarrow> Inl e
      | Inr t \<Rightarrow> generate_blurring_image_of_galaxy_light_profiles t)"

definition tracer_image ::
  "galaxy list \<Rightarrow> galaxy list \<Rightarrow> grid_coords_collection \<Rightarrow> 'm \<Rightarrow> error + real list" where
  "tracer_image lens source gc mapping =
     (case Tracer lens source gc of
        Inl e \<Rightarrow> Inl e
      | Inr t \<Rightarrow> generate_image_of_galaxy_light_profiles t mapping)"

subsection \<open>Galaxies and grids used as examples\<close>

definition example_lens :: galaxy where
  "example_lens = \<lparr>redshift = None, mass_profiles = [\<lambda>c. (fst c / 2, snd c / 2)],
     light_profiles = [\<lambda>c. 1]\<rparr>"

definition example_source :: galaxy where
  "example_source = \<lparr>redshift = None, mass_profiles = [], light_profiles = [\<lambda>c. fst c + snd c]\<rparr>"

definition example_grids :: grid_coords_collection where
  "example_grids = \<lparr>image_grid = [(1, 1)],
     sub = Some \<lparr>grid = [[(1, 1), (1, 0), (2, 0), (2, 2)]], sub_grid_size = 2\<rparr>,
     blurring = Some [(2, 0)]\<rparr>"

definition example_image_only :: grid_coords_collection where
  "example_image_only = \<lparr>image_grid = [(1, 1)], sub = None, blurring = None\<rparr>"

section \<open>Border relocation\<close>

text \<open>
  Modelled from the spec: the class GridBorder of \<^verbatim>\<open>grids.py\<close> is missing from the
  sources; only its tests are there. A border holds the indices of the border pixels, the
  degree and centre of the fit and, once fitted, the radii and angles of the border
  coordinates and the coefficients of the polynomial \<open>radius(theta)\<close>, highest power
  first. Coordinates are \<open>(x, y)\<close> here, as in the tests: \<open>(1, 0)\<close> lies at 0 degrees and
  \<open>(0, 1)\<close> at 90. The class's field \<^verbatim>\<open>border_pixels\<close> is \<open>border_pixel_indices\<close> here,
  since \<open>border_pixels\<close> names the method of Mask above. \<open>arctan2\<close> is the two-argument
  arctangent on real numbers, with values in \<open>(-pi, pi]\<close>. In \<open>move_factor\<close> the quotient
  \<open>r_border / r\<close> is taken at \<open>r = 0\<close> only for a coordinate at the centre with a negative
  fitted radius; the spec gives no behaviour there and no theorem below depends on it.
\<close>

record grid_border =
  border_pixel_indices :: "nat list"
  polynomial_degree :: nat
  centre :: coord
  radii :: "real list"
  thetas :: "real list"
  polynomial :: "real list"

definition polyval :: "real list \<Rightarrow> real \<Rightarrow> real" where
  "polyval p x = foldl (\<lambda>acc c. acc * x + c) 0 p"

definition radius_at_theta :: "grid_border \<Rightarrow> real \<Rightarrow> real" where
  "radius_at_theta b theta = polyval (polynomial b) theta"

definition arctan2 :: "real \<Rightarrow> real \<Rightarrow> real" where
  "arctan2 y x =
     (if 0 < x then arctan (y / x)
      else if x < 0 then (if 0 \<le> y then arctan (y / x) + pi else arctan (y / x) - pi)
      else if 0 < y then pi / 2
      else if y < 0 then - (pi / 2)
      else 0)"

definition coordinates_angle_from_x :: "grid_border \<Rightarrow> coord \<Rightarrow> real" where
  "coordinates_angle_from_x b c =
     (let theta = arctan2 (snd c - snd (centre b)) (fst c - fst (centre b)) * 180 / pi
      in if theta < 0 then theta + 360 else theta)"

definition distance :: "coord \<Rightarrow> coord \<Rightarrow> real" where
  "distance c d = sqrt ((fst c - fst d)\<^sup>2 + (snd c - snd d)\<^sup>2)"

definition move_factor :: "grid_border \<Rightarrow> coord \<Rightarrow> real" where
  "move_factor b c =
     (let r = distance c (centre b);
          theta = coordinates_angle_from_x b c;
          r_border = radius_at_theta b theta
      in if r \<le> r_border then 1 else r_border / r)"

definition relocated_coordinate :: "grid_border \<Rightarrow> coord \<Rightarrow> coord" where
  "relocated_coordinate b c = vadd (centre b) (vscale (move_factor b c) (vsub c (centre b)))"

text \<open>
  Modelled from the spec: \<^verbatim>\<open>polynomial_fit_to_border\<close>, missing with \<^verbatim>\<open>grids.py\<close>. For
  each border-pixel index, in the order of the index list, it takes the radius and the
  angle of that coordinate, stores the two parallel lists and fits a polynomial of the
  border's degree to them. The least-squares fit is numpy's \<^verbatim>\<open>polyfit\<close>, a library
  routine outside the repository: it is the parameter \<open>polyfit\<close>, given the angles, the
  radii and the degree. An index past the end of the coordinates raises IndexError.
\<close>

definition polynomial_fit_to_border ::
  "(real list \<Rightarrow> real list \<Rightarrow> nat \<Rightarrow> real list) \<Rightarrow> grid_border \<Rightarrow> coord list
     \<Rightarrow> error + grid_border" where
  "polynomial_fit_to_border polyfit b coordinates =
     (if list_all (\<lambda>i. i < length coordinates) (border_pixel_indices b)
      then (let rs = map (\<lambda>i. distance (coordinates ! i) (centre b)) (border_pixel_indices b);
                ts = map (\<lambda>i. coordinates_angle_from_x b (coordinates ! i))
                       (border_pixel_indices b)
            in Inr (b\<lparr>radii := rs, thetas := ts,
                      polynomial := polyfit ts rs (polynomial_degree b)\<rparr>))
      else Inl IndexError)"

text \<open>
  Modelled from the spec: \<^verbatim>\<open>relocate_sub_coordinates_outside_border\<close>, missing with
  \<^verbatim>\<open>grids.py\<close>. The border is fitted to the coordinates; then a sub-coordinate is
  relocated by its own angle and radius against the fitted polynomial, unless the index of
  its parent pixel is a border pixel: none of that parent's sub-coordinates is relocated.
\<close>

definition relocate_sub_coordinates_outside_border ::
  "(real list \<Rightarrow> real list \<Rightarrow> nat \<Rightarrow> real list) \<Rightarrow> grid_border \<Rightarrow> coord list
     \<Rightarrow> coord list list \<Rightarrow> error + coord list list" where
  "relocate_sub_coordinates_outside_border polyfit b coordinates sub_coordinates =
     (case polynomial_fit_to_border polyfit b coordinates of
        Inl e \<Rightarrow> Inl e
      | Inr fitted \<Rightarrow>
          Inr (map (\<lambda>(image_pixel, sub_pixels).
                      if image_pixel \<in> set (border_pixel_indices fitted) then sub_pixels
                      else map (relocated_coordinate fitted) sub_pixels)
                 (enumerate 0 sub_coordinates)))"

subsection \<open>Borders used as examples\<close>

text \<open>
  \<open>unit_circle_border\<close> is the fitted border of the repository's tests: four border
  pixels at radius 1 on the axes, whose cubic fit is the constant 1. \<open>dipping_border\<close> is
  the cubic through the radii 1, 27/32, 1/2 and 1 at 90, 135, 180 and 270 degrees; it is
  negative at 0 degrees.
\<close>

definition dipping_border :: grid_border where
  "dipping_border = \<lparr>border_pixel_indices = [0, 1, 2, 3], polynomial_degree = 3, centre = (0, 0),
     radii = [1, 27 / 32, 1 / 2, 1], thetas = [90, 135, 180, 270],
     polynomial = [7 / 8748000, - 1 / 2700, 53 / 1080, - 1]\<rparr>"

definition unit_circle_border :: grid_border where
  "unit_circle_border = \<lparr>border_pixel_indices = [0, 1, 2, 3], polynomial_degree = 3,
     centre = (0, 0), radii = [1, 1, 1, 1], thetas = [0, 90, 180, 270],
     polynomial = [0, 0, 0, 1]\<rparr>"



definition unit_fit :: "real list \<Rightarrow> real list \<Rightarrow> nat \<Rightarrow> real list" where
  "unit_fit ts rs d = [0, 0, 0, 1]"


text \<open>
  The border, coordinates and sub-coordinates of the repository's test
  \<^verbatim>\<open>test__sub_pixels_outside_border__are_relocated\<close>: every parent pixel is a border
  pixel.
\<close>

definition test_border :: grid_border where
  "test_border = \<lparr>border_pixel_indices = [0, 1, 2, 3], polynomial_degree = 3,
     centre = (0, 0), radii = [], thetas = [], polynomial = []\<rparr>"

definition test_coordinates :: "coord list" where
  "test_coordinates = [(1, 0), (0, 1), (- 1, 0), (0, - 1)]"

definition test_sub_coordinates :: "coord list list" where
  "test_sub_coordinates =
     [[(2, 0), (1 / 5, 0), (2, 2), (2 / 5, 0)],
      [(0, 2), (- 2, 2), (3 / 10, 0), (2 / 5, 0)],
      [(- 2, 0), (1 / 5, 0), (3 / 10, 0), (2, - 2)],
      [(0, - 2), (1 / 5, 0), (3 / 10, 0), (2 / 5, 0)]]"

section \<open>Facts about arrays and loops\<close>

lemma set_positions: "set (positions r c) = {0..<r} \<times> {0..<c}"
  by (simp add: positions_def)

lemma positions_3_3:
  "positions 3 3 = [(0,0),(0,1),(0,2),(1,0),(1,1),(1,2),(2,0),(2,1),(2,2)]"
  by (simp add: positions_def upt_rec)


lemma for_each_cases:
  assumes "\<And>x s. x \<in> set xs \<Longrightarrow> P s \<Longrightarrow> f x s = Inl e \<or> (\<exists>s'. f x s = Inr s' \<and> P s')"
    and "P s"
  shows "for_each f xs s = Inl e \<or> (\<exists>s'. for_each f xs s = Inr s' \<and> P s')"
  using assms
proof (induction xs arbitrary: s)
  case Nil
  then show ?case by simp
next
  case (Cons x xs)
  from Cons.prems have "f x s = Inl e \<or> (\<exists>s'. f x s = Inr s' \<and> P s')" by simp
  then show ?case
  proof
    assume "f x s = Inl e"
    then show ?thesis by simp
  next
    assume "\<exists>s'. f x s = Inr s' \<and> P s'"
    then obtain s' where s': "f x s = Inr s'" "P s'" by blast
    have "for_each f xs s' = Inl e \<or> (\<exists>s''. for_each f xs s' = Inr s'' \<and> P s'')"
      using Cons.prems(1) s'(2) by (intro Cons.IH) auto
    with s' show ?thesis by simp
  qed
qed

lemma for_each_fails:
  assumes "\<And>x s. x \<in> set xs \<Longrightarrow> P s \<Longrightarrow> f x s = Inl e \<or> (\<exists>s'. f x s = Inr s' \<and> P s')"
    and "y \<in> set xs" and "\<And>s. P s \<Longrightarrow> f y s = Inl e"
    and "P s"
  shows "for_each f xs s = Inl e"
  using assms
proof (induction xs arbitrary: s)
  case Nil
  then show ?case by simp
next
  case (Cons x xs)
  from Cons.prems have "f x s = Inl e \<or> (\<exists>s'. f x s = Inr s' \<and> P s')" by simp
  then show ?case
  proof
    assume "f x s = Inl e"
    then show ?thesis by simp
  next
    assume "\<exists>s'. f x s = Inr s' \<and> P s'"
    then obtain s' where s': "f x s = Inr s'" "P s'" by blast
    with Cons.prems(3) [of s] Cons.prems(4) have "x \<noteq> y" by auto
    with Cons.prems(2) have "y \<in> set xs" by auto
    then have "for_each f xs s' = Inl e"
      using Cons.prems(1,3) s'(2) by (intro Cons.IH) auto
    with s' show ?thesis by simp
  qed
qed


lemma set_py_range_odd:
  fixes s :: int
  assumes "s mod 2 \<noteq> 0"
  shows "set (py_range ((- s + 1) div 2) ((s + 1) div 2)) = {x. \<bar>x\<bar> \<le> (s - 1) div 2}"
proof -
  define k where "k = s div 2"
  from assms have "s mod 2 = 1" by simp
  then have s: "s = 2 * k + 1" unfolding k_def by (metis mult_div_mod_eq)
  have 1: "(- s + 1) div 2 = - k" unfolding s by simp
  have 2: "(s + 1) div 2 = k + 1" unfolding s by simp
  have 3: "(s - 1) div 2 = k" unfolding s by simp
  have "set (py_range (- k) (k + 1)) = {x. \<bar>x\<bar> \<le> k}"
    by (auto simp: py_range_def)
  then show ?thesis by (simp only: 1 2 3)
qed

lemma set_kernel_offsets:
  assumes "fst ksize mod 2 \<noteq> 0" "snd ksize mod 2 \<noteq> 0"
  shows "set (kernel_offsets ksize) = {off. in_box ksize off}"
proof -
  have "set (kernel_offsets ksize)
      = {x. \<bar>x\<bar> \<le> (fst ksize - 1) div 2} \<times> {x. \<bar>x\<bar> \<le> (snd ksize - 1) div 2}"
    unfolding kernel_offsets_def set_product
    by (simp only: set_py_range_odd [OF assms(1)] set_py_range_odd [OF assms(2)])
  also have "\<dots> = {off. in_box ksize off}"
    by (auto simp: in_box_def)
  finally show ?thesis .
qed

section \<open>Mask.border_pixels: neighbour reads\<close>

lemma array_get_error:
  "array_get m a b = Inl e \<Longrightarrow> e = IndexError \<and> \<not> in_bounds m (a, b)"
  by (auto simp: array_get_def np_index_def in_bounds_def split: if_splits sum.splits)

lemma array_get_in_bounds:
  "in_bounds m (a, b) \<Longrightarrow> array_get m a b = Inr (cell m (nat a) (nat b))"
  by (auto simp: array_get_def np_index_def in_bounds_def)

lemma length_neighbours: "length (neighbours i j) = 8"
  by (simp add: neighbours_def)

lemma distinct_neighbours: "distinct (neighbours i j)"
  by (simp add: neighbours_def)

lemma any_excluded_reads_subset: "set (snd (any_excluded m ps)) \<subseteq> set ps"
  by (induction ps) (auto split: sum.splits prod.splits)

lemma any_excluded_reads_iff:
  "distinct ps \<Longrightarrow> k < length ps \<Longrightarrow>
   (ps ! k \<in> set (snd (any_excluded m ps)))
     = list_all (\<lambda>p. array_get m (fst p) (snd p) = Inr True) (take k ps)"
proof (induction ps arbitrary: k)
  case Nil
  then show ?case by simp
next
  case (Cons p ps)
  show ?case
  proof (cases k)
    case 0
    then show ?thesis by (auto split: sum.splits prod.splits)
  next
    case (Suc k')
    with Cons.prems have k': "k' < length ps" and d: "distinct ps" and np: "ps ! k' \<noteq> p"
      by auto
    show ?thesis
    proof (cases "array_get m (fst p) (snd p) = Inr True")
      case True
      then have "snd (any_excluded m (p # ps)) = p # snd (any_excluded m ps)"
        by (simp split: prod.splits)
      with Suc True np Cons.IH [OF d k'] show ?thesis by simp
    next
      case False
      then have "snd (any_excluded m (p # ps)) = [p]"
        by (auto split: sum.splits)
      with Suc False np show ?thesis by simp
    qed
  qed
qed

lemma any_excluded_error:
  "fst (any_excluded m ps) = Inl e \<Longrightarrow>
   e = IndexError
   \<and> (\<exists>p\<in>set (snd (any_excluded m ps)). \<not> in_bounds m p)
   \<and> (\<exists>k<length ps. list_all (\<lambda>p. array_get m (fst p) (snd p) = Inr True) (take k ps)
         \<and> array_get m (fst (ps ! k)) (snd (ps ! k)) = Inl IndexError)"
proof (induction ps)
  case Nil
  then show ?case by simp
next
  case (Cons p ps)
  show ?case
  proof (cases "array_get m (fst p) (snd p)")
    case (Inl e')
    with Cons.prems have "e = e'" by simp
    moreover from Inl have "e' = IndexError \<and> \<not> in_bounds m p"
      using array_get_error [of m "fst p" "snd p" e'] by simp
    ultimately show ?thesis using Inl by (auto intro: exI [of _ 0])
  next
    case (Inr v)
    with Cons.prems have v: "v" and rec: "fst (any_excluded m ps) = Inl e"
      by (auto split: if_splits prod.splits)
    from Cons.IH [OF rec] obtain q k where
      "e = IndexError" "q \<in> set (snd (any_excluded m ps))" "\<not> in_bounds m q"
      "k < length ps" "list_all (\<lambda>p. array_get m (fst p) (snd p) = Inr True) (take k ps)"
      "array_get m (fst (ps ! k)) (snd (ps ! k)) = Inl IndexError"
      by blast
    with Inr v show ?thesis
      by (auto split: prod.splits intro!: exI [of _ "Suc k"])
  qed
qed

lemma any_excluded_ok:
  "\<forall>p\<in>set ps. in_bounds m p \<Longrightarrow> \<exists>b. fst (any_excluded m ps) = Inr b"
proof (induction ps)
  case Nil
  then show ?case by auto
next
  case (Cons p ps)
  then have "in_bounds m p" by simp
  then have g: "array_get m (fst p) (snd p) = Inr (cell m (nat (fst p)) (nat (snd p)))"
    using array_get_in_bounds [of m "fst p" "snd p"] by simp
  from Cons obtain b where "fst (any_excluded m ps) = Inr b" by auto
  with g show ?case by (auto split: prod.splits)
qed

lemma neighbours_in_bounds:
  "i < rows m \<Longrightarrow> j < cols m \<Longrightarrow> \<not> on_edge m (i, j) \<Longrightarrow> \<forall>p\<in>set (neighbours i j). in_bounds m p"
  by (auto simp: neighbours_def in_bounds_def on_edge_def)

lemma neighbours_last_row:
  "i + 1 = rows m \<Longrightarrow> any_excluded m (neighbours i j) = (Inl IndexError, [(int i + 1, int j)])"
  by (auto simp: neighbours_def array_get_def np_index_def)

lemma chain_raises_iff:
  "chain_raises m p =
     (\<exists>k<8. chain_reaches m (fst p) (snd p) k
        \<and> array_get m (fst (neighbours (fst p) (snd p) ! k))
             (snd (neighbours (fst p) (snd p) ! k)) = Inl IndexError)"
  by (auto simp: chain_raises_def list_ex_iff)

lemma any_excluded_no_raise:
  "\<not> chain_raises m p \<Longrightarrow> \<exists>b. fst (any_excluded m (neighbours (fst p) (snd p))) = Inr b"
proof (cases "fst (any_excluded m (neighbours (fst p) (snd p)))")
  case (Inl e)
  assume n: "\<not> chain_raises m p"
  from any_excluded_error [OF Inl] have "chain_raises m p"
    by (auto simp: chain_raises_iff chain_reaches_def length_neighbours)
  with n show ?thesis by simp
next
  case (Inr b)
  then show ?thesis by simp
qed

lemma border_scan_mono: "set (reads s) \<subseteq> set (snd (border_scan m ps s))"
proof (induction ps arbitrary: s)
  case Nil
  then show ?case by simp
next
  case (Cons p ps)
  show ?case
  proof (cases "cell m (fst p) (snd p)")
    case False
    with Cons show ?thesis by simp
  next
    case True
    obtain r rd where ae: "any_excluded m (neighbours (fst p) (snd p)) = (r, rd)"
      by (cases "any_excluded m (neighbours (fst p) (snd p))")
    show ?thesis
    proof (cases r)
      case (Inl e)
      with True ae show ?thesis by simp
    next
      case (Inr b)
      let ?s = "\<lparr>border = (if b then border s @ [image_pixel_index s] else border s),
               image_pixel_index = image_pixel_index s + 1,
               reads = reads s @ map (Pair p) rd\<rparr>"
      have "set (reads ?s) \<subseteq> set (snd (border_scan m ps ?s))" by (rule Cons.IH)
      with True ae Inr show ?thesis by auto
    qed
  qed
qed

lemma border_scan_reads_only:
  "r \<in> set (snd (border_scan m ps s)) \<Longrightarrow>
   r \<in> set (reads s)
   \<or> (fst r \<in> set ps \<and> cell m (fst (fst r)) (snd (fst r))
      \<and> snd r \<in> set (snd (any_excluded m (neighbours (fst (fst r)) (snd (fst r))))))"
proof (induction ps arbitrary: s)
  case Nil
  then show ?case by simp
next
  case (Cons p ps)
  show ?case
  proof (cases "cell m (fst p) (snd p)")
    case False
    with Cons.prems have "r \<in> set (snd (border_scan m ps s))" by simp
    from Cons.IH [OF this] show ?thesis by auto
  next
    case True
    obtain res rd where ae: "any_excluded m (neighbours (fst p) (snd p)) = (res, rd)"
      by (cases "any_excluded m (neighbours (fst p) (snd p))")
    show ?thesis
    proof (cases res)
      case (Inl e)
      with True ae Cons.prems have "r \<in> set (reads s) \<or> r \<in> Pair p ` set rd" by auto
      with True ae show ?thesis by auto
    next
      case (Inr b)
      let ?s = "\<lparr>border = (if b then border s @ [image_pixel_index s] else border s),
               image_pixel_index = image_pixel_index s + 1,
               reads = reads s @ map (Pair p) rd\<rparr>"
      from True ae Inr Cons.prems have "r \<in> set (snd (border_scan m ps ?s))" by simp
      from Cons.IH [OF this] True ae show ?thesis by auto
    qed
  qed
qed

lemma border_scan_reads_if:
  "p \<in> set ps \<Longrightarrow> cell m (fst p) (snd p) \<Longrightarrow>
   list_all (\<lambda>x. \<not> (cell m (fst x) (snd x) \<and> chain_raises m x)) (takeWhile (\<lambda>x. x \<noteq> p) ps) \<Longrightarrow>
   q \<in> set (snd (any_excluded m (neighbours (fst p) (snd p)))) \<Longrightarrow>
   (p, q) \<in> set (snd (border_scan m ps s))"
proof (induction ps arbitrary: s)
  case Nil
  then show ?case by simp
next
  case (Cons x ps)
  obtain res rd where ae: "any_excluded m (neighbours (fst x) (snd x)) = (res, rd)"
    by (cases "any_excluded m (neighbours (fst x) (snd x))")
  show ?case
  proof (cases "x = p")
    case True
    with Cons.prems ae have in_rd: "q \<in> set rd" by simp
    show ?thesis
    proof (cases res)
      case (Inl e)
      with True Cons.prems(2) ae in_rd show ?thesis by simp
    next
      case (Inr b)
      let ?s = "\<lparr>border = (if b then border s @ [image_pixel_index s] else border s),
               image_pixel_index = image_pixel_index s + 1,
               reads = reads s @ map (Pair x) rd\<rparr>"
      have "(p, q) \<in> set (reads ?s)" using True in_rd by simp
      then have "(p, q) \<in> set (snd (border_scan m ps ?s))"
        using border_scan_mono [of ?s m ps] by blast
      with True Cons.prems(2) ae Inr show ?thesis by simp
    qed
  next
    case False
    with Cons.prems have p: "p \<in> set ps"
      and nr: "\<not> (cell m (fst x) (snd x) \<and> chain_raises m x)"
      and rest: "list_all (\<lambda>x. \<not> (cell m (fst x) (snd x) \<and> chain_raises m x))
                   (takeWhile (\<lambda>x. x \<noteq> p) ps)"
      by auto
    show ?thesis
    proof (cases "cell m (fst x) (snd x)")
      case False
      with Cons.IH [OF p Cons.prems(2) rest Cons.prems(4)] show ?thesis by simp
    next
      case True
      with nr have "\<not> chain_raises m x" by simp
      from any_excluded_no_raise [OF this] ae obtain b where res: "res = Inr b" by auto
      let ?s = "\<lparr>border = (if b then border s @ [image_pixel_index s] else border s),
               image_pixel_index = image_pixel_index s + 1,
               reads = reads s @ map (Pair x) rd\<rparr>"
      have "(p, q) \<in> set (snd (border_scan m ps ?s))"
        by (rule Cons.IH [OF p Cons.prems(2) rest Cons.prems(4)])
      with True ae res show ?thesis by simp
    qed
  qed
qed

lemma border_scan_error:
  "fst (border_scan m ps s) = Inl e \<Longrightarrow>
   e = IndexError \<and> (\<exists>r\<in>set (snd (border_scan m ps s)). \<not> in_bounds m (snd r))"
proof (induction ps arbitrary: s)
  case Nil
  then show ?case by simp
next
  case (Cons p ps)
  show ?case
  proof (cases "cell m (fst p) (snd p)")
    case False
    with Cons.prems have "fst (border_scan m ps s) = Inl e" by simp
    from Cons.IH [OF this] False show ?thesis by simp
  next
    case True
    obtain res rd where ae: "any_excluded m (neighbours (fst p) (snd p)) = (res, rd)"
      by (cases "any_excluded m (neighbours (fst p) (snd p))")
    show ?thesis
    proof (cases res)
      case (Inl e')
      with True ae Cons.prems have e: "e = e'" by simp
      from ae Inl obtain q where q: "e' = IndexError" "q \<in> set rd" "\<not> in_bounds m q"
        using any_excluded_error [of m "neighbours (fst p) (snd p)" e'] by auto
      from q(2) True ae Inl have "(p, q) \<in> set (snd (border_scan m (p # ps) s))" by simp
      with q(3) have "\<exists>r\<in>set (snd (border_scan m (p # ps) s)). \<not> in_bounds m (snd r)"
        by force
      with e q(1) show ?thesis by simp
    next
      case (Inr b)
      let ?s = "\<lparr>border = (if b then border s @ [image_pixel_index s] else border s),
               image_pixel_index = image_pixel_index s + 1,
               reads = reads s @ map (Pair p) rd\<rparr>"
      from True ae Inr Cons.prems have "fst (border_scan m ps ?s) = Inl e" by simp
      from Cons.IH [OF this] True ae Inr show ?thesis by simp
    qed
  qed
qed

lemma border_scan_ok:
  "\<forall>p\<in>set ps. fst p < rows m \<and> snd p < cols m \<and> (cell m (fst p) (snd p) \<longrightarrow> \<not> on_edge m p) \<Longrightarrow>
   \<exists>bp. fst (border_scan m ps s) = Inr bp"
proof (induction ps arbitrary: s)
  case Nil
  then show ?case by simp
next
  case (Cons p ps)
  show ?case
  proof (cases "cell m (fst p) (snd p)")
    case False
    with Cons show ?thesis by simp
  next
    case True
    with Cons.prems have nb: "\<forall>q\<in>set (neighbours (fst p) (snd p)). in_bounds m q"
      using neighbours_in_bounds [of "fst p" m "snd p"] by simp
    obtain res rd where ae: "any_excluded m (neighbours (fst p) (snd p)) = (res, rd)"
      by (cases "any_excluded m (neighbours (fst p) (snd p))")
    with any_excluded_ok [OF nb] obtain b where res: "res = Inr b" by auto
    let ?s = "\<lparr>border = (if b then border s @ [image_pixel_index s] else border s),
               image_pixel_index = image_pixel_index s + 1,
               reads = reads s @ map (Pair p) rd\<rparr>"
    have "\<exists>bp. fst (border_scan m ps ?s) = Inr bp"
      using Cons.prems by (intro Cons.IH) auto
    with True ae res show ?thesis by simp
  qed
qed

lemma border_scan_last_row:
  "(i, j) \<in> set ps \<Longrightarrow> cell m i j \<Longrightarrow> i + 1 = rows m \<Longrightarrow>
   fst (border_scan m ps s) = Inl IndexError"
proof (induction ps arbitrary: s)
  case Nil
  then show ?case by simp
next
  case (Cons p ps)
  show ?case
  proof (cases "cell m (fst p) (snd p)")
    case False
    with Cons.prems have "(i, j) \<in> set ps" by auto
    with False Cons show ?thesis by simp
  next
    case True
    obtain res rd where ae: "any_excluded m (neighbours (fst p) (snd p)) = (res, rd)"
      by (cases "any_excluded m (neighbours (fst p) (snd p))")
    show ?thesis
    proof (cases res)
      case (Inl e)
      with ae have "e = IndexError"
        using any_excluded_error [of m "neighbours (fst p) (snd p)" e] by simp
      with True ae Inl show ?thesis by simp
    next
      case (Inr b)
      have "p \<noteq> (i, j)"
      proof
        assume "p = (i, j)"
        with ae Inr neighbours_last_row [OF Cons.prems(3), of j] show False by simp
      qed
      with Cons.prems have "(i, j) \<in> set ps" by auto
      with True ae Inr Cons show ?thesis by simp
    qed
  qed
qed


lemma border_pixels_reads_only:
  assumes "((i, j), q) \<in> set (snd (border_pixels m))"
  shows "i < rows m \<and> j < cols m \<and> cell m i j
         \<and> (\<exists>k<8. q = neighbours i j ! k \<and> chain_reaches m i j k)"
proof -
  from border_scan_reads_only [OF assms [unfolded border_pixels_def]]
  have p: "(i, j) \<in> set (positions (rows m) (cols m))" and c: "cell m i j"
    and q: "q \<in> set (snd (any_excluded m (neighbours i j)))"
    by simp_all
  from q any_excluded_reads_subset have "q \<in> set (neighbours i j)" by blast
  then obtain k where k: "k < 8" "q = neighbours i j ! k"
    by (auto simp: in_set_conv_nth length_neighbours)
  with q have "chain_reaches m i j k"
    using any_excluded_reads_iff [OF distinct_neighbours, of k i j m]
    by (simp add: length_neighbours chain_reaches_def)
  with p c k show ?thesis by (auto simp: set_positions)
qed

lemma border_pixels_reads_if:
  assumes "i < rows m" "j < cols m" "cell m i j" "k < 8" "chain_reaches m i j k"
    and "list_all (\<lambda>p. \<not> (cell m (fst p) (snd p) \<and> chain_raises m p)) (scanned_before m (i, j))"
  shows "((i, j), neighbours i j ! k) \<in> set (snd (border_pixels m))"
proof -
  from assms(4,5) have "neighbours i j ! k \<in> set (snd (any_excluded m (neighbours i j)))"
    using any_excluded_reads_iff [OF distinct_neighbours, of k i j m]
    by (simp add: length_neighbours chain_reaches_def)
  moreover from assms(1,2) have "(i, j) \<in> set (positions (rows m) (cols m))"
    by (simp add: set_positions)
  ultimately show ?thesis
    unfolding border_pixels_def
    using assms(3,6) border_scan_reads_if [of "(i, j)" "positions (rows m) (cols m)" m]
    by (simp add: scanned_before_def)
qed

lemma border_pixels_inner:
  assumes "\<forall>p\<in>set (positions (rows m) (cols m)). cell m (fst p) (snd p) \<longrightarrow> \<not> on_edge m p"
  shows "(\<exists>bp. fst (border_pixels m) = Inr bp)
         \<and> list_all (\<lambda>r. in_bounds m (snd r)) (snd (border_pixels m))"
proof
  show "\<exists>bp. fst (border_pixels m) = Inr bp"
    unfolding border_pixels_def
    using assms by (intro border_scan_ok) (auto simp: set_positions)
  show "list_all (\<lambda>r. in_bounds m (snd r)) (snd (border_pixels m))"
    unfolding list_all_iff
  proof
    fix r assume r: "r \<in> set (snd (border_pixels m))"
    obtain i j q where [simp]: "r = ((i, j), q)" by (metis surj_pair)
    from r have "((i, j), q) \<in> set (snd (border_pixels m))" by simp
    from border_pixels_reads_only [OF this] obtain k where
      k: "i < rows m" "j < cols m" "cell m i j" "k < 8" "q = neighbours i j ! k"
      by blast
    with assms have "\<not> on_edge m (i, j)" by (auto simp: set_positions)
    with k have "\<forall>p\<in>set (neighbours i j). in_bounds m p"
      using neighbours_in_bounds by blast
    with k show "in_bounds m (snd r)" by (simp add: length_neighbours)
  qed
qed

lemma border_pixels_last_row:
  assumes "i + 1 = rows m" "j < cols m" "cell m i j"
  shows "fst (border_pixels m) = Inl IndexError
         \<and> \<not> list_all (\<lambda>r. in_bounds m (snd r)) (snd (border_pixels m))"
proof -
  from assms have "(i, j) \<in> set (positions (rows m) (cols m))"
    by (auto simp: set_positions)
  with assms have e: "fst (border_pixels m) = Inl IndexError"
    using border_scan_last_row [of i j _ m] by (simp add: border_pixels_def)
  then have "\<exists>r\<in>set (snd (border_pixels m)). \<not> in_bounds m (snd r)"
    using border_scan_error [of m _ _ IndexError] by (simp add: border_pixels_def)
  with e show ?thesis by (auto simp: list_all_iff)
qed

lemma array_get_wrap:
  "j < cols m \<Longrightarrow> 0 < rows m \<Longrightarrow> array_get m (- 1) (int j) = Inr (cell m (rows m - 1) j)"
  "i < rows m \<Longrightarrow> 0 < cols m \<Longrightarrow> array_get m (int i) (- 1) = Inr (cell m i (cols m - 1))"
  "array_get m (int (rows m)) b = Inl IndexError"
  "i < rows m \<Longrightarrow> array_get m (int i) (int (cols m)) = Inl IndexError"
  by (auto simp: array_get_def np_index_def nat_diff_distrib)

text \<open>
  Claim C10, as amended. When no included pixel lies in the first or last row or column,
  \<open>border_pixels\<close> returns a border list and every neighbour read is inside the array.
  An included pixel in the last row always makes it fail with IndexError, after a read
  past the array end: \<^verbatim>\<open>mask[i + 1, j]\<close> is the first operand of the chain. For every
  included pixel, operand number \<open>k\<close> of its chain is read only if every operand before it
  was read and found an included pixel, and it is read whenever that holds and no chain of
  a pixel scanned earlier has raised; so the out-of-range read of a last-column pixel and
  the read at index -1 of a pixel in row 0 or column 0 happen exactly then. A read at
  index -1 does not fail: it returns the pixel on the opposite edge. A read at the index
  just past the last row or column raises IndexError.
\<close>

theorem border_pixels_bounds:
  "((\<forall>p\<in>set (positions (rows m) (cols m)). cell m (fst p) (snd p) \<longrightarrow> \<not> on_edge m p) \<longrightarrow>
      (\<exists>bp. fst (border_pixels m) = Inr bp)
      \<and> list_all (\<lambda>r. in_bounds m (snd r)) (snd (border_pixels m)))
   \<and> (i + 1 = rows m \<and> j < cols m \<and> cell m i j \<longrightarrow>
      fst (border_pixels m) = Inl IndexError
      \<and> \<not> list_all (\<lambda>r. in_bounds m (snd r)) (snd (border_pixels m)))
   \<and> (((i, j), q) \<in> set (snd (border_pixels m)) \<longrightarrow>
      i < rows m \<and> j < cols m \<and> cell m i j
      \<and> (\<exists>k<8. q = neighbours i j ! k \<and> chain_reaches m i j k))
   \<and> (i < rows m \<and> j < cols m \<and> cell m i j \<and> k < 8 \<and> chain_reaches m i j k
       \<and> list_all (\<lambda>p. \<not> (cell m (fst p) (snd p) \<and> chain_raises m p))
           (scanned_before m (i, j)) \<longrightarrow>
      ((i, j), neighbours i j ! k) \<in> set (snd (border_pixels m)))
   \<and> (j < cols m \<and> 0 < rows m \<longrightarrow>
      array_get m (- 1) (int j) = Inr (cell m (rows m - 1) j))
   \<and> (i < rows m \<and> 0 < cols m \<longrightarrow>
      array_get m (int i) (- 1) = Inr (cell m i (cols m - 1)))
   \<and> array_get m (int (rows m)) (int j) = Inl IndexError
   \<and> (i < rows m \<longrightarrow> array_get m (int i) (int (cols m)) = Inl IndexError)"
proof (intro conjI impI)
  assume "\<forall>p\<in>set (positions (rows m) (cols m)). cell m (fst p) (snd p) \<longrightarrow> \<not> on_edge m p"
  from border_pixels_inner [OF this]
  show "\<exists>bp. fst (border_pixels m) = Inr bp"
    and "list_all (\<lambda>r. in_bounds m (snd r)) (snd (border_pixels m))"
    by simp_all
next
  assume "i + 1 = rows m \<and> j < cols m \<and> cell m i j"
  then have "fst (border_pixels m) = Inl IndexError
         \<and> \<not> list_all (\<lambda>r. in_bounds m (snd r)) (snd (border_pixels m))"
    by (intro border_pixels_last_row [of i m j]) simp_all
  then show "fst (border_pixels m) = Inl IndexError"
    and "\<not> list_all (\<lambda>r. in_bounds m (snd r)) (snd (border_pixels m))"
    by simp_all
next
  assume "((i, j), q) \<in> set (snd (border_pixels m))"
  from border_pixels_reads_only [OF this]
  show "i < rows m" and "j < cols m" and "cell m i j"
    and "\<exists>k<8. q = neighbours i j ! k \<and> chain_reaches m i j k"
    by simp_all
next
  assume "i < rows m \<and> j < cols m \<and> cell m i j \<and> k < 8 \<and> chain_reaches m i j k
       \<and> list_all (\<lambda>p. \<not> (cell m (fst p) (snd p) \<and> chain_raises m p))
           (scanned_before m (i, j))"
  then show "((i, j), neighbours i j ! k) \<in> set (snd (border_pixels m))"
    by (intro border_pixels_reads_if) simp_all
next
  assume "j < cols m \<and> 0 < rows m"
  then show "array_get m (- 1) (int j) = Inr (cell m (rows m - 1) j)"
    by (simp add: array_get_wrap)
next
  assume "i < rows m \<and> 0 < cols m"
  then show "array_get m (int i) (- 1) = Inr (cell m i (cols m - 1))"
    by (simp add: array_get_wrap)
next
  show "array_get m (int (rows m)) (int j) = Inl IndexError"
    by (rule array_get_wrap)
next
  assume "i < rows m"
  then show "array_get m (int i) (int (cols m)) = Inl IndexError"
    by (rule array_get_wrap)
qed

text \<open>
  Four masks evaluated: the centre pixel alone; a pixel in the last row; pixels \<open>(0, 1)\<close>
  and \<open>(1, 1)\<close>, where the chain of \<open>(0, 1)\<close> reads \<^verbatim>\<open>mask[-1, 1]\<close>, that is the excluded
  \<^verbatim>\<open>mask[2, 1]\<close>; and a run down the last column, where the chain of \<open>(1, 2)\<close> finds its
  first two operands included and reads \<^verbatim>\<open>mask[1, 3]\<close> past the last column.
\<close>

lemma border_pixels_mask_first_row:
  "border_pixels mask_first_row
     = (Inr [0, 1], [((0, 1), (1, 1)), ((0, 1), (- 1, 1)), ((1, 1), (2, 1))])"
  by (simp add: border_pixels_def positions_3_3 mask_first_row_def of_rows_def neighbours_def
      array_get_def np_index_def)

lemma border_pixels_mask_last_column_run:
  "border_pixels mask_last_column_run
     = (Inl IndexError,
        [((0, 2), (1, 2)), ((0, 2), (- 1, 2)), ((1, 2), (2, 2)), ((1, 2), (0, 2)),
         ((1, 2), (1, 3))])"
  by code_simp

lemma border_pixels_mask_centre: "border_pixels mask_centre = (Inr [0], [((1, 1), (2, 1))])"
  by code_simp

lemma border_pixels_mask_last_row:
  "border_pixels mask_last_row = (Inl IndexError, [((2, 1), (3, 1))])"
  by code_simp


theorem border_pixels_bounds_witness:
  "list_all (\<lambda>p. \<not> (cell mask_centre (fst p) (snd p) \<and> on_edge mask_centre p))
     (positions (rows mask_centre) (cols mask_centre))
   \<and> (\<exists>bp. fst (border_pixels mask_centre) = Inr bp)
   \<and> list_all (\<lambda>r. in_bounds mask_centre (snd r)) (snd (border_pixels mask_centre))
   \<and> (2::nat) + 1 = rows mask_last_row \<and> (1::nat) < cols mask_last_row \<and> cell mask_last_row 2 1
   \<and> fst (border_pixels mask_last_row) = Inl IndexError
   \<and> \<not> list_all (\<lambda>r. in_bounds mask_last_row (snd r)) (snd (border_pixels mask_last_row))
   \<and> cell mask_first_row 0 1 \<and> chain_reaches mask_first_row 0 1 1
   \<and> ((0, 1), (- 1, 1)) \<in> set (snd (border_pixels mask_first_row))
   \<and> array_get mask_first_row (- 1) (int 1) = Inr (cell mask_first_row 2 1)
   \<and> \<not> cell mask_first_row 2 1
   \<and> cell mask_last_column_run 1 2 \<and> chain_reaches mask_last_column_run 1 2 2
   \<and> ((1, 2), (1, 3)) \<in> set (snd (border_pixels mask_last_column_run))
   \<and> array_get mask_last_column_run (int 1) (int (cols mask_last_column_run)) = Inl IndexError
   \<and> (\<exists>k<8. (1, 3) = neighbours 1 2 ! k \<and> chain_reaches mask_last_column_run 1 2 k)"
proof -
  have h1: "\<forall>p\<in>set (positions (rows mask_centre) (cols mask_centre)).
       cell mask_centre (fst p) (snd p) \<longrightarrow> \<not> on_edge mask_centre p"
    by (simp add: mask_centre_def of_rows_def positions_3_3 on_edge_def)
  then have h1': "list_all (\<lambda>p. \<not> (cell mask_centre (fst p) (snd p) \<and> on_edge mask_centre p))
     (positions (rows mask_centre) (cols mask_centre))"
    by (simp add: list_all_iff)
  have h2: "(2::nat) + 1 = rows mask_last_row \<and> (1::nat) < cols mask_last_row \<and> cell mask_last_row 2 1"
    by (simp add: mask_last_row_def of_rows_def)
  have h3: "0 < rows mask_first_row \<and> 1 < cols mask_first_row \<and> cell mask_first_row 0 1
      \<and> (1::nat) < 8 \<and> chain_reaches mask_first_row 0 1 1
      \<and> list_all (\<lambda>p. \<not> (cell mask_first_row (fst p) (snd p) \<and> chain_raises mask_first_row p))
           (scanned_before mask_first_row (0, 1))"
    by code_simp
  have h3': "\<not> cell mask_first_row 2 1" "neighbours 0 1 ! 1 = (- 1, 1)"
    by (simp_all add: mask_first_row_def of_rows_def neighbours_def)
  have h4: "1 < rows mask_last_column_run \<and> 2 < cols mask_last_column_run
      \<and> cell mask_last_column_run 1 2
      \<and> (2::nat) < 8 \<and> chain_reaches mask_last_column_run 1 2 2
      \<and> list_all (\<lambda>p. \<not> (cell mask_last_column_run (fst p) (snd p)
                          \<and> chain_raises mask_last_column_run p))
           (scanned_before mask_last_column_run (1, 2))"
    by code_simp
  have h4': "neighbours 1 2 ! 2 = (1, 3)"
    by (simp add: neighbours_def)
  note t1 = border_pixels_bounds [where m = mask_centre and i = 0 and j = 0]
  note t2 = border_pixels_bounds [where m = mask_last_row and i = 2 and j = 1]
  note t3 = border_pixels_bounds [where m = mask_first_row and i = 0 and j = 1 and k = 1]
  note t4 = border_pixels_bounds [where m = mask_last_column_run and i = 1 and j = 2 and k = 2
      and q = "(1, 3)"]
  from t1 h1 have a1: "(\<exists>bp. fst (border_pixels mask_centre) = Inr bp)
     \<and> list_all (\<lambda>r. in_bounds mask_centre (snd r)) (snd (border_pixels mask_centre))"
    by blast
  from t2 h2 have a2: "fst (border_pixels mask_last_row) = Inl IndexError
     \<and> \<not> list_all (\<lambda>r. in_bounds mask_last_row (snd r)) (snd (border_pixels mask_last_row))"
    by blast
  from t3 h3 have "((0, 1), neighbours 0 1 ! 1) \<in> set (snd (border_pixels mask_first_row))"
    by blast
  then have a3: "((0, 1), (- 1, 1)) \<in> set (snd (border_pixels mask_first_row))"
    by (simp only: h3')
  from t3 h3 have a3': "array_get mask_first_row (- 1) (int 1) = Inr (cell mask_first_row 2 1)"
    by (simp add: mask_first_row_def of_rows_def)
  from t4 h4 have "((1, 2), neighbours 1 2 ! 2) \<in> set (snd (border_pixels mask_last_column_run))"
    by blast
  then have a4: "((1, 2), (1, 3)) \<in> set (snd (border_pixels mask_last_column_run))"
    by (simp only: h4')
  from t4 a4 have a4': "\<exists>k<8. (1, 3) = neighbours 1 2 ! k \<and> chain_reaches mask_last_column_run 1 2 k"
    by blast
  from t4 h4 have a4'': "array_get mask_last_column_run (int 1) (int (cols mask_last_column_run))
      = Inl IndexError"
    by blast
  from h1' h2 h3 h3'(1) h4 a1 a2 a3 a3' a4 a4' a4'' show ?thesis
    by blast
qed

text \<open>
  The claim C10 as stated fails on the 3 by 3 mask whose only included pixel is \<open>(1, 2)\<close>,
  in the last column: the chain reads \<^verbatim>\<open>mask[2, 2]\<close>, finds it excluded and stops, so
  every read is in bounds although an included pixel lies on the edge.
\<close>

theorem border_pixels_short_circuit_counterexample:
  "\<not> (list_all (\<lambda>r. in_bounds mask_last_column (snd r)) (snd (border_pixels mask_last_column))
       \<longleftrightarrow> \<not> list_ex (\<lambda>p. cell mask_last_column (fst p) (snd p) \<and> on_edge mask_last_column p)
                (positions (rows mask_last_column) (cols mask_last_column)))"
proof -
  have "border_pixels mask_last_column = (Inr [0], [((1, 2), (2, 2))])"
    by (simp add: border_pixels_def positions_3_3 mask_last_column_def of_rows_def neighbours_def
      array_get_def np_index_def)
  then show ?thesis
    by (simp add: in_bounds_def mask_last_column_def of_rows_def positions_3_3 on_edge_def)
qed


section \<open>Mask.blurring_region: failures and result\<close>

lemma mark_neighbour_wide:
  assumes "rows m \<le> cols m" "same_shape m b"
  shows "mark_neighbour m i j off b =
     (if 0 \<le> int i + fst off \<and> int i + fst off \<le> int (rows m) - 1
         \<and> 0 \<le> int j + snd off \<and> int j + snd off \<le> int (rows m) - 1
      then Inr (if cell m (nat (int j + snd off)) (nat (int i + fst off)) then b
                else b\<lparr>cell := \<lambda>r c. if r = nat (int j + snd off) \<and> c = nat (int i + fst off)
                                     then True else cell b r c\<rparr>)
      else Inl (MaskException pad_msg))"
  using assms
  by (cases off)
     (auto simp: mark_neighbour_def same_shape_def array_get_def array_set_def np_index_def)

lemma mark_neighbour_wide_cases:
  assumes "rows m \<le> cols m" "same_shape m b"
  shows "mark_neighbour m i j off b = Inl (MaskException pad_msg)
         \<or> (\<exists>b'. mark_neighbour m i j off b = Inr b' \<and> same_shape m b')"
  using assms by (simp add: mark_neighbour_wide) (simp add: same_shape_def)

lemma mark_neighbour_wide_fails:
  assumes "rows m \<le> cols m" "same_shape m b"
    "\<not> in_bounds m (int i + fst off, int j + snd off)"
  shows "mark_neighbour m i j off b = Inl (MaskException pad_msg)"
proof -
  from assms(1,3) have
    "\<not> (0 \<le> int i + fst off \<and> int i + fst off \<le> int (rows m) - 1
         \<and> 0 \<le> int j + snd off \<and> int j + snd off \<le> int (rows m) - 1)"
    by (auto simp: in_bounds_def)
  then show ?thesis by (simp add: mark_neighbour_wide [OF assms(1,2)])
qed

lemma blurring_pixel_wide_cases:
  assumes "rows m \<le> cols m" "same_shape m b"
  shows "blurring_pixel m ksize p b = Inl (MaskException pad_msg)
         \<or> (\<exists>b'. blurring_pixel m ksize p b = Inr b' \<and> same_shape m b')"
proof (cases p)
  case (Pair i j)
  show ?thesis
  proof (cases "cell m i j")
    case False
    with Pair assms show ?thesis by (simp add: blurring_pixel_def)
  next
    case True
    have "for_each (mark_neighbour m i j) (kernel_offsets ksize) b = Inl (MaskException pad_msg)
       \<or> (\<exists>b'. for_each (mark_neighbour m i j) (kernel_offsets ksize) b = Inr b' \<and> same_shape m b')"
      using assms(2) mark_neighbour_wide_cases [OF assms(1)]
      by (intro for_each_cases [where P = "same_shape m"]) auto
    with Pair True show ?thesis by (simp add: blurring_pixel_def)
  qed
qed

lemma blurring_pixel_wide_fails:
  assumes "rows m \<le> cols m" "same_shape m b" "cell m i j" "off \<in> set (kernel_offsets ksize)"
    "\<not> in_bounds m (int i + fst off, int j + snd off)"
  shows "blurring_pixel m ksize (i, j) b = Inl (MaskException pad_msg)"
proof -
  have "for_each (mark_neighbour m i j) (kernel_offsets ksize) b = Inl (MaskException pad_msg)"
    using assms(2,4,5) mark_neighbour_wide_cases [OF assms(1)]
      mark_neighbour_wide_fails [OF assms(1)]
    by (intro for_each_fails [where P = "same_shape m" and y = off]) auto
  with assms(3) show ?thesis by (simp add: blurring_pixel_def)
qed

text \<open>
  Claim C7, as amended. \<open>blurring_region\<close> fails with a MaskException whenever a component
  of the kernel size is even. With an odd by odd kernel on a mask that has at least as
  many columns as rows it fails with a MaskException whenever the box of an included pixel
  leaves the array. Both failures are of the one class MaskException and differ in their
  message only; a failure returns no region at all.
\<close>

theorem blurring_region_errors:
  "(fst ksize mod 2 = 0 \<or> snd ksize mod 2 = 0 \<longrightarrow>
      blurring_region m ksize = Inl (MaskException odd_msg))
   \<and> (fst ksize mod 2 \<noteq> 0 \<and> snd ksize mod 2 \<noteq> 0 \<and> rows m \<le> cols m
       \<and> i < rows m \<and> j < cols m \<and> cell m i j \<and> in_box ksize off
       \<and> \<not> in_bounds m (int i + fst off, int j + snd off) \<longrightarrow>
      blurring_region m ksize = Inl (MaskException pad_msg))
   \<and> class_name (MaskException odd_msg) = class_name (MaskException pad_msg)
   \<and> odd_msg \<noteq> pad_msg"
proof (intro conjI impI)
  assume "fst ksize mod 2 = 0 \<or> snd ksize mod 2 = 0"
  then show "blurring_region m ksize = Inl (MaskException odd_msg)"
    by (simp add: blurring_region_def)
next
  assume a: "fst ksize mod 2 \<noteq> 0 \<and> snd ksize mod 2 \<noteq> 0 \<and> rows m \<le> cols m
       \<and> i < rows m \<and> j < cols m \<and> cell m i j \<and> in_box ksize off
       \<and> \<not> in_bounds m (int i + fst off, int j + snd off)"
  then have off: "off \<in> set (kernel_offsets ksize)" by (simp add: set_kernel_offsets)
  from a have sq: "rows m \<le> cols m" by simp
  from a have p: "(i, j) \<in> set (positions (rows m) (cols m))" by (simp add: set_positions)
  have z: "same_shape m (zeros (rows m) (cols m))" by (simp add: same_shape_def zeros_def)
  have "for_each (blurring_pixel m ksize) (positions (rows m) (cols m)) (zeros (rows m) (cols m))
        = Inl (MaskException pad_msg)"
  proof (rule for_each_fails [where P = "same_shape m" and y = "(i, j)"])
    fix x and s :: "bool ndarray" assume "same_shape m s"
    then show "blurring_pixel m ksize x s = Inl (MaskException pad_msg)
      \<or> (\<exists>s'. blurring_pixel m ksize x s = Inr s' \<and> same_shape m s')"
      using blurring_pixel_wide_cases [OF sq] by blast
  next
    show "(i, j) \<in> set (positions (rows m) (cols m))" by (rule p)
  next
    fix s :: "bool ndarray" assume "same_shape m s"
    with a off show "blurring_pixel m ksize (i, j) s = Inl (MaskException pad_msg)"
      using blurring_pixel_wide_fails [OF sq] by blast
  next
    show "same_shape m (zeros (rows m) (cols m))" by (rule z)
  qed
  with a show "blurring_region m ksize = Inl (MaskException pad_msg)"
    by (simp add: blurring_region_def)
next
  show "class_name (MaskException odd_msg) = class_name (MaskException pad_msg)"
    by (simp add: class_name_def)
next
  show "odd_msg \<noteq> pad_msg" by (simp add: odd_msg_def pad_msg_def)
qed

theorem blurring_region_errors_witness:
  "((2::int) mod 2 = 0 \<or> (3::int) mod 2 = 0)
   \<and> blurring_region mask_centre (2, 3) = Inl (MaskException odd_msg)
   \<and> (3::int) mod 2 \<noteq> 0 \<and> rows mask_wide \<le> cols mask_wide
   \<and> (1::nat) < rows mask_wide \<and> (4::nat) < cols mask_wide
   \<and> cell mask_wide 1 4 \<and> in_box (3, 3) (0, 1)
   \<and> \<not> in_bounds mask_wide (int 1 + 0, int 4 + 1)
   \<and> blurring_region mask_wide (3, 3) = Inl (MaskException pad_msg)"
proof -
  have h: "rows mask_wide \<le> cols mask_wide"
    "(1::nat) < rows mask_wide" "(4::nat) < cols mask_wide"
    "cell mask_wide 1 4" "in_box (3, 3) (0, 1)"
    "\<not> in_bounds mask_wide (int 1 + 0, int 4 + 1)"
    by (simp_all add: mask_wide_def of_rows_def in_box_def in_bounds_def)
  show ?thesis
    using h blurring_region_errors [of "(2, 3)" mask_centre 0 0 "(0, 0)"]
      blurring_region_errors [of "(3, 3)" mask_wide 1 4 "(0, 1)"]
    by simp
qed

text \<open>
  The claim C7 as stated asks for two distinct error types, and for a failure whenever a
  box leaves the array. An even kernel and a box that leaves the array raise the same
  class; and on the 5 by 3 mask whose only included pixel is \<open>(1, 2)\<close> the box reaches
  column 3, outside the array, yet the call returns a region.
\<close>

theorem blurring_region_one_class_counterexample:
  "raised (blurring_region mask_last_column (2, 3)) = Some (MaskException odd_msg)
   \<and> raised (blurring_region mask_last_column (3, 3)) = Some (MaskException pad_msg)
   \<and> map_option class_name (raised (blurring_region mask_last_column (2, 3)))
     = map_option class_name (raised (blurring_region mask_last_column (3, 3)))
   \<and> cell mask_tall 1 2 \<and> in_box (3, 3) (0, 1)
   \<and> \<not> in_bounds mask_tall (int 1 + 0, int 2 + 1)
   \<and> map_sum id true_pixels (blurring_region mask_tall (3, 3))
       = Inr [(1, 0), (1, 1), (2, 0), (2, 1), (2, 2), (3, 0), (3, 1), (3, 2)]"
  by code_simp


text \<open>
  Scenario D of the spec: a (3, 3) kernel over the 3 by 3 mask whose only included pixel is
  the centre gives the eight surrounding pixels, each once.
\<close>

lemma blurring_region_scenario_D:
  "map_sum id true_pixels (blurring_region mask_centre (3, 3))
     = Inr [(0, 0), (0, 1), (0, 2), (1, 0), (1, 2), (2, 0), (2, 1), (2, 2)]"
  by code_simp

text \<open>
  Claim C6: the code at the 4 by 4 mask whose only included pixel is \<open>(1, 2)\<close>, with a
  (3, 3) kernel. The box of \<open>(1, 2)\<close> stays inside the array. The code marks the
  neighbourhood of the transposed position \<open>(2, 1)\<close>, that position included, while the
  excluded pixels in the box of \<open>(1, 2)\<close> are the ones \<open>blurring_region_spec\<close> lists.
\<close>

theorem blurring_region_transposed:
  "map_sum id true_pixels (blurring_region mask_off_diagonal (3, 3))
     = Inr [(1, 0), (1, 1), (2, 0), (2, 1), (2, 2), (3, 0), (3, 1), (3, 2)]
   \<and> blurring_region_spec mask_off_diagonal (3, 3)
     = [(0, 1), (0, 2), (0, 3), (1, 1), (1, 3), (2, 1), (2, 2), (2, 3)]"
  by code_simp

section \<open>Grids: deflection and tracing\<close>









section \<open>Tracer\<close>

lemma traced_own_deflections:
  "traced_grids_for_deflections gc (deflection_grids_for_galaxies gc lens)
     = Inr (source_plane_grids_of gc lens)"
  by (cases "sub gc"; cases "blurring gc")
     (simp_all add: traced_grids_for_deflections_def deflection_grids_for_galaxies_def
        source_plane_grids_of_def)

lemma Tracer_value:
  "Tracer lens source gc =
     Inr \<lparr>image_plane = \<lparr>galaxies = lens, grids = gc,
                          deflections = Some (deflection_grids_for_galaxies gc lens)\<rparr>,
          source_plane = \<lparr>galaxies = source, grids = source_plane_grids_of gc lens,
                           deflections = None\<rparr>\<rparr>"
  by (simp add: Tracer_def Plane_def trace_to_next_plane_def traced_own_deflections)

text \<open>
  Claim C1. Constructing a Tracer always succeeds. Its image plane is the plane over the
  lens galaxies and the given grids, with the deflections of those grids stored; its
  source plane is the plane over the source galaxies and the grids traced through those
  deflections, with no deflections stored. The tracer has these two planes only.
\<close>

theorem Tracer_builds_two_planes:
  "Tracer lens source gc =
     Inr \<lparr>image_plane = Plane lens gc True,
          source_plane = Plane source
            \<lparr>image_grid = trace_to_next_grid (image_grid gc)
                            (deflection_grid_from_galaxies (image_grid gc) lens),
             sub = map_option
                     (\<lambda>s. sub_trace_to_next_grid s (sub_deflection_grid_from_galaxies s lens))
                     (sub gc),
             blurring = map_option
                     (\<lambda>b. trace_to_next_grid b (deflection_grid_from_galaxies b lens))
                     (blurring gc)\<rparr> False\<rparr>
   \<and> Plane lens gc True
       = \<lparr>galaxies = lens, grids = gc,
          deflections = Some (deflection_grids_for_galaxies gc lens)\<rparr>
   \<and> deflections (Plane source gc' False) = None
   \<and> galaxies (Plane source gc' False) = source
   \<and> grids (Plane source gc' False) = gc'"
  by (simp add: Tracer_value Plane_def source_plane_grids_of_def)

lemma np_add_same_length: "length a = length b \<Longrightarrow> np_add a b = Inr (map2 (+) a b)"
  by (simp add: np_add_def)

lemma length_traced_blurring:
  "length (blurring_intensities_via_grid (trace_to_next_grid b (deflection_grid_from_galaxies b lens)) source)
     = length (blurring_intensities_via_grid b lens)"
  by (simp add: blurring_intensities_via_grid_def trace_to_next_grid_def
      deflection_grid_from_galaxies_def)

lemma length_traced_sub:
  "length (sub_intensities_via_grid
             (sub_trace_to_next_grid s (sub_deflection_grid_from_galaxies s lens)) source mapping)
     = length (sub_intensities_via_grid s lens mapping)"
  by (simp add: sub_intensities_via_grid_def sub_trace_to_next_grid_def
      sub_deflection_grid_from_galaxies_def)

text \<open>
  Claim C8. For a tracer built over a bundle with no blurring grid,
  \<open>generate_blurring_image_of_galaxy_light_profiles\<close> returns \<open>None\<close>. With a blurring grid
  it returns the elementwise sum of the two planes' blurring images: the lens galaxies'
  intensities on the blurring grid and the source galaxies' on the traced blurring grid.
\<close>

theorem blurring_image_absent_or_sum:
  "\<exists>t. Tracer lens source gc = Inr t
     \<and> (blurring gc = None \<longrightarrow> generate_blurring_image_of_galaxy_light_profiles t = Inr None)
     \<and> (\<forall>b. blurring gc = Some b \<longrightarrow>
          plane_generate_blurring_image_of_galaxy_light_profiles (image_plane t)
            = Inr (blurring_intensities_via_grid b lens)
          \<and> plane_generate_blurring_image_of_galaxy_light_profiles (source_plane t)
            = Inr (blurring_intensities_via_grid
                     (trace_to_next_grid b (deflection_grid_from_galaxies b lens)) source)
          \<and> generate_blurring_image_of_galaxy_light_profiles t
            = Inr (Some (map2 (+) (blurring_intensities_via_grid b lens)
                     (blurring_intensities_via_grid
                        (trace_to_next_grid b (deflection_grid_from_galaxies b lens)) source))))"
proof (cases "blurring gc")
  case None
  then show ?thesis
    by (simp add: Tracer_value generate_blurring_image_of_galaxy_light_profiles_def)
next
  case (Some b)
  then show ?thesis
    by (simp add: Tracer_value generate_blurring_image_of_galaxy_light_profiles_def
        plane_generate_blurring_image_of_galaxy_light_profiles_def source_plane_grids_of_def
        np_add_same_length length_traced_blurring)
qed

theorem blurring_image_absent_or_sum_witness:
  "blurring example_image_only = None
   \<and> tracer_blurring_image [example_lens] [example_source] example_image_only = Inr None
   \<and> blurring example_grids = Some [(2, 0)]
   \<and> tracer_blurring_image [example_lens] [example_source] example_grids = Inr (Some [2])"
proof -
  have a: "blurring example_image_only = None" "blurring example_grids = Some [(2, 0)]"
    by (simp_all add: example_image_only_def example_grids_def)
  have b: "map2 (+) (blurring_intensities_via_grid [(2, 0)] [example_lens])
             (blurring_intensities_via_grid
                (trace_to_next_grid [(2, 0)] (deflection_grid_from_galaxies [(2, 0)] [example_lens]))
                [example_source]) = [2]"
    by (simp add: blurring_intensities_via_grid_def intensity_at_def trace_to_next_grid_def
        deflection_grid_from_galaxies_def deflection_at_def example_lens_def example_source_def
        vadd_def vsub_def)
  show ?thesis
    using a b blurring_image_absent_or_sum [of "[example_lens]" "[example_source]" example_image_only]
      blurring_image_absent_or_sum [of "[example_lens]" "[example_source]" example_grids]
    by (auto simp: tracer_blurring_image_def)
qed

text \<open>
  Claim C9, as amended. For a tracer built over a bundle that carries a sub-grid,
  \<open>generate_image_of_galaxy_light_profiles\<close> returns the elementwise sum of the image
  plane's light image and the source plane's, each over that plane's own sub-grid and
  galaxies. Over a bundle with no sub-grid the call raises AttributeError.
\<close>

theorem light_image_sum:
  "\<exists>t. Tracer lens source gc = Inr t
     \<and> (\<forall>s. sub gc = Some s \<longrightarrow>
          plane_generate_image_of_galaxy_light_profiles (image_plane t) mapping
            = Inr (sub_intensities_via_grid s lens mapping)
          \<and> plane_generate_image_of_galaxy_light_profiles (source_plane t) mapping
            = Inr (sub_intensities_via_grid
                     (sub_trace_to_next_grid s (sub_deflection_grid_from_galaxies s lens))
                     source mapping)
          \<and> generate_image_of_galaxy_light_profiles t mapping
            = Inr (map2 (+) (sub_intensities_via_grid s lens mapping)
                     (sub_intensities_via_grid
                        (sub_trace_to_next_grid s (sub_deflection_grid_from_galaxies s lens))
                        source mapping)))
     \<and> (sub gc = None \<longrightarrow> generate_image_of_galaxy_light_profiles t mapping = Inl AttributeError)"
proof (cases "sub gc")
  case None
  then show ?thesis
    by (simp add: Tracer_value generate_image_of_galaxy_light_profiles_def
        plane_generate_image_of_galaxy_light_profiles_def)
next
  case (Some s)
  then show ?thesis
    by (simp add: Tracer_value generate_image_of_galaxy_light_profiles_def
        plane_generate_image_of_galaxy_light_profiles_def source_plane_grids_of_def
        np_add_same_length length_traced_sub)
qed

theorem light_image_sum_witness:
  "sub example_grids = Some \<lparr>grid = [[(1, 1), (1, 0), (2, 0), (2, 2)]], sub_grid_size = 2\<rparr>
   \<and> tracer_image [example_lens] [example_source] example_grids () = Inr [17 / 8]
   \<and> sub example_image_only = None
   \<and> tracer_image [example_lens] [example_source] example_image_only () = Inl AttributeError"
proof -
  let ?s = "\<lparr>grid = [[(1, 1), (1, 0), (2, 0), (2, 2)]], sub_grid_size = 2\<rparr>"
  have a: "sub example_image_only = None" "sub example_grids = Some ?s"
    by (simp_all add: example_image_only_def example_grids_def)
  have b: "map2 (+) (sub_intensities_via_grid ?s [example_lens] ())
             (sub_intensities_via_grid
                (sub_trace_to_next_grid ?s (sub_deflection_grid_from_galaxies ?s [example_lens]))
                [example_source] ()) = [17 / 8]"
    by (simp add: sub_intensities_via_grid_def intensity_at_def trace_to_next_grid_def
        sub_trace_to_next_grid_def sub_deflection_grid_from_galaxies_def
        deflection_grid_from_galaxies_def deflection_at_def example_lens_def example_source_def
        vadd_def vsub_def)
  show ?thesis
    using a b light_image_sum [of "[example_lens]" "[example_source]" example_grids "()"]
      light_image_sum [of "[example_lens]" "[example_source]" example_image_only "()"]
    by (auto simp: tracer_image_def)
qed

text \<open>
  The claim C9 as stated covers every tracer. Over a bundle with an image grid only, the
  planes have no sub-grid to read and the call raises.
\<close>

theorem light_image_no_sub_grid_counterexample:
  "tracer_image [example_lens] [example_source] example_image_only () = Inl AttributeError"
  by (simp add: tracer_image_def Tracer_value generate_image_of_galaxy_light_profiles_def
      plane_generate_image_of_galaxy_light_profiles_def source_plane_grids_of_def
      example_image_only_def)


section \<open>Border relocation: idempotence\<close>

lemma arctan2_scale: "0 < k \<Longrightarrow> arctan2 (k * y) (k * x) = arctan2 y x"
  by (simp add: arctan2_def zero_less_mult_iff mult_less_0_iff zero_le_mult_iff)

lemma angle_scale:
  assumes "0 < k"
  shows "coordinates_angle_from_x b (vadd (centre b) (vscale k (vsub c (centre b))))
         = coordinates_angle_from_x b c"
  using arctan2_scale [OF assms]
  by (simp add: coordinates_angle_from_x_def vadd_def vscale_def vsub_def)

lemma distance_scale:
  "distance (vadd d (vscale k (vsub c d))) d = \<bar>k\<bar> * distance c d"
proof -
  have "(k * (fst c - fst d))\<^sup>2 + (k * (snd c - snd d))\<^sup>2
        = k\<^sup>2 * ((fst c - fst d)\<^sup>2 + (snd c - snd d)\<^sup>2)"
    by (simp add: power_mult_distrib distrib_left)
  then show ?thesis
    by (simp add: distance_def vadd_def vscale_def vsub_def real_sqrt_mult)
qed

lemma relocated_inside:
  assumes "distance c (centre b) \<le> radius_at_theta b (coordinates_angle_from_x b c)"
  shows "relocated_coordinate b c = c"
  using assms by (simp add: relocated_coordinate_def move_factor_def vadd_def vscale_def vsub_def)

lemma relocated_outside_positive:
  assumes out: "\<not> distance c (centre b) \<le> radius_at_theta b (coordinates_angle_from_x b c)"
    and pos: "0 < radius_at_theta b (coordinates_angle_from_x b c)"
  shows "relocated_coordinate b (relocated_coordinate b c) = relocated_coordinate b c"
proof -
  let ?r = "distance c (centre b)"
  let ?rb = "radius_at_theta b (coordinates_angle_from_x b c)"
  let ?c' = "relocated_coordinate b c"
  from out pos have r: "0 < ?r" by linarith
  have mf: "move_factor b c = ?rb / ?r" using out by (simp add: move_factor_def)
  with pos r have k: "0 < move_factor b c" by simp
  have c': "?c' = vadd (centre b) (vscale (move_factor b c) (vsub c (centre b)))"
    by (simp add: relocated_coordinate_def)
  have ang: "coordinates_angle_from_x b ?c' = coordinates_angle_from_x b c"
    unfolding c' using k by (rule angle_scale)
  have "distance ?c' (centre b) = \<bar>move_factor b c\<bar> * ?r"
    unfolding c' by (rule distance_scale)
  with k mf r pos have "distance ?c' (centre b) = ?rb" by simp
  with ang have "distance ?c' (centre b) \<le> radius_at_theta b (coordinates_angle_from_x b ?c')"
    by simp
  then show ?thesis by (rule relocated_inside)
qed

lemma angle_east: "centre b = (0, 0) \<Longrightarrow> 0 < x \<Longrightarrow> coordinates_angle_from_x b (x, 0) = 0"
  by (simp add: coordinates_angle_from_x_def arctan2_def)

lemma angle_west: "centre b = (0, 0) \<Longrightarrow> x < 0 \<Longrightarrow> coordinates_angle_from_x b (x, 0) = 180"
  by (simp add: coordinates_angle_from_x_def arctan2_def)

lemma centre_examples: "centre unit_circle_border = (0, 0)" "centre dipping_border = (0, 0)"
  by (simp_all add: unit_circle_border_def dipping_border_def)

lemma relocated_unit_2_0: "relocated_coordinate unit_circle_border (2, 0) = (1, 0)"
  by (simp add: relocated_coordinate_def move_factor_def unit_circle_border_def angle_east
      distance_def radius_at_theta_def polyval_def vadd_def vscale_def vsub_def)

lemma relocated_dipping_1_0: "relocated_coordinate dipping_border (1, 0) = (- 1, 0)"
  by (simp add: relocated_coordinate_def move_factor_def dipping_border_def angle_east
      distance_def radius_at_theta_def polyval_def vadd_def vscale_def vsub_def)

lemma relocated_dipping_m1_0: "relocated_coordinate dipping_border (- 1, 0) = (- 1 / 2, 0)"
  by (simp add: relocated_coordinate_def move_factor_def dipping_border_def angle_west
      distance_def radius_at_theta_def polyval_def vadd_def vscale_def vsub_def)

text \<open>
  The border points at 90, 135, 180 and 270 degrees with radii 1, 27/32, 1/2 and 1 lie on
  the cubic of \<open>dipping_border\<close>: with four points and degree 3 the least-squares fit is
  this interpolating cubic.
\<close>

lemma dipping_border_fits:
  "radius_at_theta dipping_border 90 = 1 \<and> radius_at_theta dipping_border 135 = 27 / 32
   \<and> radius_at_theta dipping_border 180 = 1 / 2 \<and> radius_at_theta dipping_border 270 = 1"
  by (simp add: radius_at_theta_def dipping_border_def polyval_def)


text \<open>
  Claim C4, as amended. \<open>move_factor\<close> is 1 when the coordinate's distance from the centre
  is at most the fitted radius at its angle, and \<open>r_border / r\<close> otherwise;
  \<open>relocated_coordinate\<close> is \<open>centre + move_factor * (coordinate - centre)\<close>, the identity
  inside the border. Relocating twice equals relocating once for every coordinate that is
  inside the border or at whose angle the fitted radius is positive.
\<close>

theorem relocated_coordinate_idempotent:
  "move_factor b c =
     (if distance c (centre b) \<le> radius_at_theta b (coordinates_angle_from_x b c) then 1
      else radius_at_theta b (coordinates_angle_from_x b c) / distance c (centre b))
   \<and> relocated_coordinate b c
       = (fst (centre b) + move_factor b c * (fst c - fst (centre b)),
          snd (centre b) + move_factor b c * (snd c - snd (centre b)))
   \<and> (distance c (centre b) \<le> radius_at_theta b (coordinates_angle_from_x b c) \<longrightarrow>
        relocated_coordinate b c = c)
   \<and> (distance c (centre b) \<le> radius_at_theta b (coordinates_angle_from_x b c)
        \<or> 0 < radius_at_theta b (coordinates_angle_from_x b c) \<longrightarrow>
        relocated_coordinate b (relocated_coordinate b c) = relocated_coordinate b c)"
proof (intro conjI impI)
  show "move_factor b c =
     (if distance c (centre b) \<le> radius_at_theta b (coordinates_angle_from_x b c) then 1
      else radius_at_theta b (coordinates_angle_from_x b c) / distance c (centre b))"
    by (simp add: move_factor_def)
  show "relocated_coordinate b c
       = (fst (centre b) + move_factor b c * (fst c - fst (centre b)),
          snd (centre b) + move_factor b c * (snd c - snd (centre b)))"
    by (simp add: relocated_coordinate_def vadd_def vscale_def vsub_def)
  show "relocated_coordinate b c = c"
    if "distance c (centre b) \<le> radius_at_theta b (coordinates_angle_from_x b c)"
    using that by (rule relocated_inside)
  show "relocated_coordinate b (relocated_coordinate b c) = relocated_coordinate b c"
    if h: "distance c (centre b) \<le> radius_at_theta b (coordinates_angle_from_x b c)
        \<or> 0 < radius_at_theta b (coordinates_angle_from_x b c)"
  proof (cases "distance c (centre b) \<le> radius_at_theta b (coordinates_angle_from_x b c)")
    case True
    then have "relocated_coordinate b c = c" by (rule relocated_inside)
    then show ?thesis by simp
  next
    case False
    with h show ?thesis by (simp add: relocated_outside_positive)
  qed
qed

theorem relocated_coordinate_idempotent_witness:
  "distance (1, 0) (centre unit_circle_border)
     \<le> radius_at_theta unit_circle_border (coordinates_angle_from_x unit_circle_border (1, 0))
   \<and> relocated_coordinate unit_circle_border (1, 0) = (1, 0)
   \<and> 0 < radius_at_theta unit_circle_border (coordinates_angle_from_x unit_circle_border (2, 0))
   \<and> relocated_coordinate unit_circle_border (2, 0) = (1, 0)
   \<and> relocated_coordinate unit_circle_border (relocated_coordinate unit_circle_border (2, 0))
       = relocated_coordinate unit_circle_border (2, 0)"
proof -
  have a: "distance (1, 0) (centre unit_circle_border)
     \<le> radius_at_theta unit_circle_border (coordinates_angle_from_x unit_circle_border (1, 0))"
    by (simp add: unit_circle_border_def distance_def radius_at_theta_def polyval_def)
  have b: "0 < radius_at_theta unit_circle_border
                 (coordinates_angle_from_x unit_circle_border (2, 0))"
    by (simp add: unit_circle_border_def radius_at_theta_def polyval_def)
  from a relocated_coordinate_idempotent [of unit_circle_border "(1, 0)"]
  have c: "relocated_coordinate unit_circle_border (1, 0) = (1, 0)"
    by blast
  from b relocated_coordinate_idempotent [of unit_circle_border "(2, 0)"]
  have d: "relocated_coordinate unit_circle_border (relocated_coordinate unit_circle_border (2, 0))
       = relocated_coordinate unit_circle_border (2, 0)"
    by blast
  from a b c d relocated_unit_2_0 show ?thesis
    by blast
qed

text \<open>
  The claim C4 as stated asks for idempotence at every coordinate. On \<open>dipping_border\<close>
  the fitted radius at 0 degrees is -1: \<open>(1, 0)\<close> is sent to \<open>(-1, 0)\<close>, which lies outside
  the fitted radius 1/2 at 180 degrees and is sent on to \<open>(-1/2, 0)\<close>.
\<close>

theorem relocated_coordinate_not_idempotent_counterexample:
  "relocated_coordinate dipping_border (1, 0) = (- 1, 0)
   \<and> relocated_coordinate dipping_border (relocated_coordinate dipping_border (1, 0)) = (- 1 / 2, 0)
   \<and> relocated_coordinate dipping_border (relocated_coordinate dipping_border (1, 0))
       \<noteq> relocated_coordinate dipping_border (1, 0)"
  by (simp add: relocated_dipping_1_0 relocated_dipping_m1_0)

section \<open>Border relocation: sub-coordinates\<close>


lemma angle_fitted:
  "coordinates_angle_from_x (b\<lparr>radii := rs, thetas := ts, polynomial := p\<rparr>) c
     = coordinates_angle_from_x b c"
  by (simp add: coordinates_angle_from_x_def)




text \<open>
  On the input of the repository's test \<^verbatim>\<open>test__sub_pixels_outside_border__are_relocated\<close>
  every parent is a border pixel, so this model leaves \<open>(2, 0)\<close> of parent 0 where it is.
  The test asserts \<open>(1, 0)\<close> for that entry. The function itself is not among the
  sources, so the difference between the spec and the test is recorded here, not settled.
\<close>

lemma relocate_sub_coordinates_on_test_input:
  "map_sum id (\<lambda>res. res ! 0 ! 0)
     (relocate_sub_coordinates_outside_border unit_fit test_border test_coordinates
        test_sub_coordinates) = Inr (2, 0)"
  by (simp add: relocate_sub_coordinates_outside_border_def polynomial_fit_to_border_def
      test_border_def test_coordinates_def test_sub_coordinates_def enumerate_eq_zip upt_rec
      Let_def)

end
